theory Spec2Isabelle
  imports Complex_Main
begin

section \<open>Data of the plugin and of its host\<close>

text \<open>
  The plugin is glue over the stores and actions of the chat client. Every store it reads
  is a field of \<open>stores\<close>; every call it makes into the client that has an effect
  (and the read of the voice states) is appended to the log \<open>calls\<close>.
\<close>

datatype error = Failure string

type_synonym response = string

record channel =
  id' :: string
  guild_id :: string
  type' :: int
  name :: string

record voice_state =
  userId :: string
  channelId :: string

text \<open>\<open>definePluginSettings\<close>: \<open>waitAfter\<close> and \<open>waitSeconds\<close> are sliders
  (markers 1..20, and 1..10 in steps of one half), \<open>includeSelfInActions\<close> a boolean.
  \<open>waitSeconds\<close> is a rational, so that \<open>waitSeconds * 1000\<close> is exact, as it is in
  the source for halves.\<close>

record settings =
  waitAfter :: int
  waitSeconds :: rat
  includeSelfInActions :: bool

datatype permission = MOVE_MEMBERS | MUTE_MEMBERS | DEAFEN_MEMBERS

datatype jvalue = JNull | JBool bool | JString string

record request =
  url :: string
  body :: "(string \<times> jvalue) list"

text \<open>
  \<open>getVoiceStatesForChannel\<close> returns an object keyed by user id; the model keeps its
  values in key order (\<open>Object.values\<close>), so \<open>Object.keys(...).length\<close> is the length
  of the list. \<open>getCurrentUser\<close> is the id of \<open>UserStore.getCurrentUser()\<close>,
  \<open>getVoiceChannelId\<close> is \<open>SelectedChannelStore.getVoiceChannelId()\<close>,
  \<open>getChannels_VOCAL\<close> is \<open>GuildChannelStore.getChannels(guild).VOCAL\<close>, and
  \<open>settings_store\<close> is \<open>settings.store\<close>. \<open>hidden\<close> is whatever else the
  host keeps.
\<close>

record 'h stores =
  getVoiceStatesForChannel :: "string \<Rightarrow> voice_state list"
  getCurrentUser :: string
  getVoiceChannelId :: "string option"
  isLocalMute :: "string \<Rightarrow> bool"
  isSelfMute :: bool
  isLocalSoundboardMuted :: "string \<Rightarrow> bool"
  canWithPartialContext :: "permission \<Rightarrow> string \<Rightarrow> bool"
  getChannels_VOCAL :: "string \<Rightarrow> (channel \<times> int) list"
  settings_store :: settings
  hidden :: 'h

datatype call =
    GetVoiceStatesForChannel string
  | Patch request
  | ConsoleError string error
  | ToggleSelfMute
  | ToggleLocalMute string
  | ToggleLocalSoundboardMute string
  | Disconnect
  | SelectVoiceChannel string

record 'h world =
  stores :: "'h stores"
  calls :: "call list"

text \<open>
  The host outside the plugin: \<open>respond\<close> is what the promise of \<open>RestAPI.patch\<close>
  settles to (\<open>Inl\<close> a rejection) and what the stores have become by then,
  \<open>elapse\<close> is what the stores have become when a timer of that many milliseconds
  fires. Both may change any store, the voice states and the settings included. Every
  promise is taken to settle: a request or a timer that never settles would leave a run
  waiting at that step.
\<close>

record 'h host =
  respond :: "request \<Rightarrow> 'h stores \<Rightarrow> (error + response) \<times> 'h stores"
  elapse :: "rat \<Rightarrow> 'h stores \<Rightarrow> 'h stores"

section \<open>runSequential\<close>

text \<open>
  The steps of one run of \<open>runSequential\<close>, in the order they happen: \<open>Called i\<close> is
  the call \<open>promises[i]()\<close>, \<open>Resolved i r\<close> and \<open>Rejected i e\<close> are the two ways
  the \<open>await\<close> of its promise ends, \<open>Paused i ms\<close> is the awaited \<open>setTimeout\<close> of
  iteration \<open>i\<close>. A producer can change the world but not this list. The model of
  \<open>runSequential\<close> returns what its promise settles to (\<open>Inl\<close> a rejection), the
  world as the run has left it, and the steps of the run. The function is the same, line
  for line, in both source files.
\<close>

datatype 'a step = Called nat | Resolved nat 'a | Rejected nat error | Paused nat rat

type_synonym ('h, 'a) producer = "'h world \<Rightarrow> (error + 'a) \<times> 'h world"

text \<open>JavaScript's \<open>a % b === 0\<close> on integers: \<open>a % 0\<close> is \<open>NaN\<close>, which is not
  \<open>0\<close>; otherwise the remainder has the sign of \<open>a\<close> and the size of
  \<open>|a| mod |b|\<close>.\<close>

definition js_rem :: "int \<Rightarrow> int \<Rightarrow> int option" where
  "js_rem a b = (if b = 0 then None else Some (sgn a * (\<bar>a\<bar> mod \<bar>b\<bar>)))"

definition setTimeout_await :: "'h host \<Rightarrow> rat \<Rightarrow> 'h world \<Rightarrow> 'h world" where
  "setTimeout_await H ms w = w\<lparr>stores := elapse H ms (stores w)\<rparr>"

function runSequential_loop ::
  "'h host \<Rightarrow> ('h, 'a) producer list \<Rightarrow> nat \<Rightarrow> 'a list \<Rightarrow> 'h world \<Rightarrow> 'a step list
    \<Rightarrow> (error + 'a list) \<times> 'h world \<times> 'a step list" where
  "runSequential_loop H promises i results w steps =
     (if i < length promises then
        (case (promises ! i) w of
           (Inl e, w1) \<Rightarrow> (Inl e, w1, steps @ [Called i, Rejected i e])
         | (Inr result, w1) \<Rightarrow>
             (if js_rem (int i) (waitAfter (settings_store (stores w1))) = Some 0
              then runSequential_loop H promises (i + 1) (results @ [result])
                     (setTimeout_await H (waitSeconds (settings_store (stores w1)) * 1000) w1)
                     (steps @ [Called i, Resolved i result,
                            Paused i (waitSeconds (settings_store (stores w1)) * 1000)])
              else runSequential_loop H promises (i + 1) (results @ [result]) w1
                     (steps @ [Called i, Resolved i result])))
      else (Inr results, w, steps))"
  by pat_completeness auto
termination
  by (relation "measure (\<lambda>(H, promises, i, results, w, steps). length promises - i)") auto

declare runSequential_loop.simps [simp del]

definition runSequential ::
  "'h host \<Rightarrow> ('h, 'a) producer list \<Rightarrow> 'h world
    \<Rightarrow> (error + 'a list) \<times> 'h world \<times> 'a step list" where
  "runSequential H promises w = runSequential_loop H promises 0 [] w []"

section \<open>getVoiceStates and sendPatch\<close>

text \<open>\<open>includeSelf\<close> is optional in the source; a caller that leaves it out passes
  \<open>False\<close> here (\<open>undefined\<close> is falsy).\<close>

definition getVoiceStates :: "channel \<Rightarrow> bool \<Rightarrow> 'h world \<Rightarrow> voice_state list \<times> 'h world" where
  "getVoiceStates c includeSelf w =
     (let vcStates = getVoiceStatesForChannel (stores w) (id' c);
          w1 = w\<lparr>calls := calls w @ [GetVoiceStatesForChannel (id' c)]\<rparr>;
          myId = getCurrentUser (stores w1)
      in (filter (\<lambda>state. includeSelf \<or> userId state \<noteq> myId) vcStates, w1))"

text \<open>\<open>RestAPI.patch\<close>: the call is logged, then the host settles its promise.\<close>

definition RestAPI_patch :: "'h host \<Rightarrow> request \<Rightarrow> ('h, response) producer" where
  "RestAPI_patch H req w =
     (let w1 = w\<lparr>calls := calls w @ [Patch req]\<rparr>
      in case respond H req (stores w1) of (out, s) \<Rightarrow> (out, w1\<lparr>stores := s\<rparr>))"

text \<open>
  \<open>sendPatch\<close> starts the batch and returns; the model runs the batch to its end and
  returns what the caller of \<open>sendPatch\<close> sees (\<open>Inl\<close> would be an error that
  escapes), the world after the batch and the steps of the batch. The \<open>catch\<close> handler
  is the \<open>Inl\<close> branch.
\<close>

definition sendPatch ::
  "'h host \<Rightarrow> channel \<Rightarrow> (string \<times> jvalue) list \<Rightarrow> bool \<Rightarrow> 'h world
    \<Rightarrow> (error + unit) \<times> 'h world \<times> response step list" where
  "sendPatch H c b includeSelf w =
     (case getVoiceStates c includeSelf w of
        (usersVoice, w1) \<Rightarrow>
          (let promises =
                 map (\<lambda>userVoice.
                        RestAPI_patch H
                          \<lparr>url = ''/guilds/'' @ guild_id c @ ''/members/'' @ userId userVoice,
                           body = b\<rparr>)
                     usersVoice
           in case runSequential H promises w1 of
                (Inl e, w2, steps) \<Rightarrow>
                  (Inr (),
                   w2\<lparr>calls := calls w2 @ [ConsoleError ''VoiceChatUtilities failed to run'' e]\<rparr>,
                   steps)
              | (Inr results, w2, steps) \<Rightarrow> (Inr (), w2, steps)))"

section \<open>actions\<close>

text \<open>
  Modelled from the spec: \<open>ClientActions\<close> and \<open>ChannelActions\<close> are the host's,
  and the source only declares their types. The spec has them as ``query/toggle
  self-mute, query/toggle a given member's local mute, query/toggle a given member's local
  soundboard mute'' and ``leave current voice channel; switch to a given voice channel''.
  So a toggle flips the flag that the matching store query reads, before it returns;
  \<open>disconnect\<close> leaves the selected voice channel and \<open>selectVoiceChannel\<close> selects
  one. Each call is logged.
\<close>

definition toggleLocalMute :: "string \<Rightarrow> 'h world \<Rightarrow> 'h world" where
  "toggleLocalMute u w =
     w\<lparr>stores := (stores w)\<lparr>isLocalMute := (isLocalMute (stores w))(u := \<not> isLocalMute (stores w) u)\<rparr>,
       calls := calls w @ [ToggleLocalMute u]\<rparr>"

definition toggleSelfMute :: "'h world \<Rightarrow> 'h world" where
  "toggleSelfMute w =
     w\<lparr>stores := (stores w)\<lparr>isSelfMute := \<not> isSelfMute (stores w)\<rparr>,
       calls := calls w @ [ToggleSelfMute]\<rparr>"

definition toggleLocalSoundboardMute :: "string \<Rightarrow> 'h world \<Rightarrow> 'h world" where
  "toggleLocalSoundboardMute u w =
     w\<lparr>stores := (stores w)\<lparr>isLocalSoundboardMuted :=
                       (isLocalSoundboardMuted (stores w))(u := \<not> isLocalSoundboardMuted (stores w) u)\<rparr>,
       calls := calls w @ [ToggleLocalSoundboardMute u]\<rparr>"

definition ChannelActions_disconnect :: "'h world \<Rightarrow> 'h world" where
  "ChannelActions_disconnect w =
     w\<lparr>stores := (stores w)\<lparr>getVoiceChannelId := None\<rparr>, calls := calls w @ [Disconnect]\<rparr>"

definition ChannelActions_selectVoiceChannel :: "string \<Rightarrow> 'h world \<Rightarrow> 'h world" where
  "ChannelActions_selectVoiceChannel cid w =
     w\<lparr>stores := (stores w)\<lparr>getVoiceChannelId := Some cid\<rparr>,
       calls := calls w @ [SelectVoiceChannel cid]\<rparr>"

text \<open>\<open>Array.prototype.forEach\<close> with a callback that changes the world.\<close>

fun forEach :: "('x \<Rightarrow> 's \<Rightarrow> 's) \<Rightarrow> 'x list \<Rightarrow> 's \<Rightarrow> 's" where
  "forEach f [] s = s"
| "forEach f (x # xs) s = forEach f xs (f x s)"

definition mute :: "channel \<Rightarrow> 'h world \<Rightarrow> 'h world" where
  "mute c w =
     (case getVoiceStates c False w of
        (states, w1) \<Rightarrow>
          (let w2 = forEach (\<lambda>state v. if isLocalMute (stores v) (userId state) then v
                                        else toggleLocalMute (userId state) v) states w1
           in if includeSelfInActions (settings_store (stores w2)) \<and> \<not> isSelfMute (stores w2)
              then toggleSelfMute w2 else w2))"

definition unmute :: "channel \<Rightarrow> 'h world \<Rightarrow> 'h world" where
  "unmute c w =
     (case getVoiceStates c False w of
        (states, w1) \<Rightarrow>
          (let w2 = forEach (\<lambda>state v. if isLocalMute (stores v) (userId state)
                                        then toggleLocalMute (userId state) v else v) states w1
           in if includeSelfInActions (settings_store (stores w2)) \<and> isSelfMute (stores w2)
              then toggleSelfMute w2 else w2))"

definition muteSoundboards :: "channel \<Rightarrow> 'h world \<Rightarrow> 'h world" where
  "muteSoundboards c w =
     (case getVoiceStates c False w of
        (states, w1) \<Rightarrow>
          forEach (\<lambda>state v. if isLocalSoundboardMuted (stores v) (userId state) then v
                             else toggleLocalSoundboardMute (userId state) v) states w1)"

definition unmuteSoundboards :: "channel \<Rightarrow> 'h world \<Rightarrow> 'h world" where
  "unmuteSoundboards c w =
     (case getVoiceStates c False w of
        (states, w1) \<Rightarrow>
          forEach (\<lambda>state v. if isLocalSoundboardMuted (stores v) (userId state)
                             then toggleLocalSoundboardMute (userId state) v else v) states w1)"

type_synonym 'h outcome = "(error + unit) \<times> 'h world \<times> response step list"

definition serverMute :: "'h host \<Rightarrow> channel \<Rightarrow> 'h world \<Rightarrow> 'h outcome" where
  "serverMute H c w =
     sendPatch H c [(''mute'', JBool True)] (includeSelfInActions (settings_store (stores w))) w"

definition serverUnmute :: "'h host \<Rightarrow> channel \<Rightarrow> 'h world \<Rightarrow> 'h outcome" where
  "serverUnmute H c w =
     sendPatch H c [(''mute'', JBool False)] (includeSelfInActions (settings_store (stores w))) w"

definition serverDeafen :: "'h host \<Rightarrow> channel \<Rightarrow> 'h world \<Rightarrow> 'h outcome" where
  "serverDeafen H c w =
     sendPatch H c [(''deaf'', JBool True)] (includeSelfInActions (settings_store (stores w))) w"

definition serverUndeafen :: "'h host \<Rightarrow> channel \<Rightarrow> 'h world \<Rightarrow> 'h outcome" where
  "serverUndeafen H c w =
     sendPatch H c [(''deaf'', JBool False)] (includeSelfInActions (settings_store (stores w))) w"

definition disconnect :: "'h host \<Rightarrow> channel \<Rightarrow> 'h world \<Rightarrow> 'h outcome" where
  "disconnect H c w =
     (let w1 = (if getVoiceChannelId (stores w) = Some (id' c)
                then ChannelActions_disconnect w else w)
      in sendPatch H c [(''channel_id'', JNull)] False w1)"

text \<open>\<open>newChannel!.id\<close> throws a \<open>TypeError\<close> when \<open>newChannel\<close> is left out.\<close>

definition moveTo :: "'h host \<Rightarrow> channel \<Rightarrow> channel option \<Rightarrow> 'h world \<Rightarrow> 'h outcome" where
  "moveTo H c newChannel w =
     (case newChannel of
        None \<Rightarrow> (Inl (Failure ''TypeError''), w, [])
      | Some n \<Rightarrow>
          (let w1 = (if getVoiceChannelId (stores w) = Some (id' c)
                     then ChannelActions_selectVoiceChannel (id' n) w else w)
           in sendPatch H c [(''channel_id'', JString (id' n))] False w1))"

text \<open>The record \<open>actions\<close>, by key.\<close>

definition actions ::
  "string \<Rightarrow> ('h host \<Rightarrow> channel \<Rightarrow> channel option \<Rightarrow> 'h world \<Rightarrow> 'h outcome) option" where
  "actions = map_of
     [(''mute'', \<lambda>H c n w. (Inr (), mute c w, [])),
      (''unmute'', \<lambda>H c n w. (Inr (), unmute c w, [])),
      (''muteSoundboards'', \<lambda>H c n w. (Inr (), muteSoundboards c w, [])),
      (''unmuteSoundboards'', \<lambda>H c n w. (Inr (), unmuteSoundboards c w, [])),
      (''serverMute'', \<lambda>H c n w. serverMute H c w),
      (''serverUnmute'', \<lambda>H c n w. serverUnmute H c w),
      (''serverDeafen'', \<lambda>H c n w. serverDeafen H c w),
      (''serverUndeafen'', \<lambda>H c n w. serverUndeafen H c w),
      (''disconnect'', \<lambda>H c n w. disconnect H c w),
      (''moveTo'', \<lambda>H c n w. moveTo H c n w)]"

section \<open>VoiceChannelContext\<close>

text \<open>
  A menu element: \<open>MenuItem id label color action children\<close> or
  \<open>MenuGroup label children\<close>. The \<open>key\<close> of every item equals its \<open>id\<close> and is
  left out. The action \<open>() => actions.k(channel, newChannel)\<close> is
  \<open>Invoke k channel newChannel\<close>. A fragment under \<open>cond &&\<close> contributes its
  items when \<open>cond\<close> holds and nothing otherwise.
\<close>

datatype menu_action = Invoke string channel "channel option"

datatype menu =
    MenuItem string string "string option" "menu_action option" "menu list"
  | MenuGroup string "menu list"

text \<open>\<open>xs.splice(start, 0, x)\<close>: a negative \<open>start\<close> counts from the end, and the
  position is clamped to the list.\<close>

definition splice :: "'a list \<Rightarrow> int \<Rightarrow> 'a \<Rightarrow> 'a list" where
  "splice xs start x =
     (let len = int (length xs);
          k = nat (if start < 0 then max (len + start) 0 else min start len)
      in take k xs @ [x] @ drop k xs)"

definition VoiceTools :: "channel \<Rightarrow> bool \<Rightarrow> channel list \<Rightarrow> bool \<Rightarrow> bool \<Rightarrow> bool \<Rightarrow> menu" where
  "VoiceTools c hasOtherUsers voiceChannels movePermission mutePermission deafPermission =
     MenuItem ''voice-tools'' ''Voice Tools'' None None
       [MenuGroup ''Client actions''
          ([MenuItem ''voice-tools-mute-all'' ''Mute all locally'' None
              (Some (Invoke ''mute'' c None)) [],
            MenuItem ''voice-tools-unmute-all'' ''Unmute all locally'' None
              (Some (Invoke ''unmute'' c None)) []]
           @ (if hasOtherUsers then
                [MenuItem ''voice-tools-soundboard-sound-mute-all'' ''Mute all soundboards'' None
                   (Some (Invoke ''muteSoundboards'' c None)) [],
                 MenuItem ''voice-tools-soundboard-sound-unmute-all'' ''Unmute all soundboards'' None
                   (Some (Invoke ''unmuteSoundboards'' c None)) []]
              else [])),
        MenuGroup ''Server actions''
          ((if mutePermission then
              [MenuItem ''voice-tools-server-mute-all'' ''Server mute all'' None
                 (Some (Invoke ''serverMute'' c None)) [],
               MenuItem ''voice-tools-server-unmute-all'' ''Server unmute all'' None
                 (Some (Invoke ''serverUnmute'' c None)) []]
            else [])
           @ (if deafPermission then
                [MenuItem ''voice-tools-server-deafen-all'' ''Server deafen all'' None
                   (Some (Invoke ''serverDeafen'' c None)) [],
                 MenuItem ''voice-tools-server-undeafen-all'' ''Server undeafen all''
                   (Some ''danger'') (Some (Invoke ''serverUndeafen'' c None)) []]
              else [])
           @ (if movePermission then
                [MenuItem ''voice-tools-disconnect-all'' ''Disconnect all'' (Some ''danger'')
                   (Some (Invoke ''disconnect'' c None)) [],
                 MenuItem ''voice-tools-move-all'' ''Move all'' None None
                   (map (\<lambda>voiceChannel.
                           MenuItem (id' voiceChannel) (name voiceChannel) None
                             (Some (Invoke ''moveTo'' c (Some voiceChannel))) [])
                        voiceChannels)]
              else []))]"

text \<open>The callback returns the list \<open>children\<close> as it has left it. \<open>chan\<close> is
  \<open>None\<close> when the context has no channel.\<close>

definition VoiceChannelContext ::
  "menu list \<Rightarrow> channel option \<Rightarrow> 'h world \<Rightarrow> menu list \<times> 'h world" where
  "VoiceChannelContext children chan w =
     (case chan of
        None \<Rightarrow> (children, w)
      | Some c \<Rightarrow>
          if type' c \<noteq> 2 \<and> type' c \<noteq> 13 then (children, w)
          else
            (case getVoiceStates c (includeSelfInActions (settings_store (stores w))) w of
               (counted, w1) \<Rightarrow>
                 (case getVoiceStates c False w1 of
                    (others, w2) \<Rightarrow>
                      (let userCount = length counted;
                           hasOtherUsers = (length others > 0)
                       in if userCount = 0 then (children, w2)
                          else
                            (let guildChannels = getChannels_VOCAL (stores w2) (guild_id c);
                                 voiceChannels =
                                   filter (\<lambda>v. id' v \<noteq> id' c) (map fst guildChannels);
                                 movePermission = canWithPartialContext (stores w2) MOVE_MEMBERS (id' c);
                                 mutePermission = canWithPartialContext (stores w2) MUTE_MEMBERS (id' c);
                                 deafPermission = canWithPartialContext (stores w2) DEAFEN_MEMBERS (id' c)
                             in (splice children (- 1)
                                   (VoiceTools c hasOtherUsers voiceChannels
                                      movePermission mutePermission deafPermission),
                                 w2))))))"

subsection \<open>The callback of \<open>src/index.tsx\<close>\<close>

text \<open>
  \<open>src/index.tsx\<close> holds a second \<open>VoiceChannelContext\<close>. It counts the keys of the
  voice states itself, its three permissions are the constant \<open>true\<close> (the call of
  \<open>PermissionStore.canWithPartialContext\<close> stands in a comment behind it), its client
  group is empty, and its items call \<open>actions.mute\<close>, \<open>actions.unmute\<close>,
  \<open>actions.deafen\<close>, \<open>actions.undeafen\<close>, \<open>actions.disconnect\<close> and \<open>actions.move\<close>.
  Only this callback of \<open>src/index.tsx\<close> is modelled apart: its \<open>runSequential\<close> is
  the one above.
\<close>

definition VoiceTools_index :: "channel \<Rightarrow> channel list \<Rightarrow> bool \<Rightarrow> bool \<Rightarrow> bool \<Rightarrow> menu" where
  "VoiceTools_index c voiceChannels movePermission mutePermission deafPermission =
     MenuItem ''voice-tools'' ''Voice Tools'' None None
       [MenuGroup ''Client'' [],
        MenuGroup ''Server''
          ((if mutePermission then
              [MenuItem ''voice-tools-server-mute-all'' ''Server mute all'' None
                 (Some (Invoke ''mute'' c None)) [],
               MenuItem ''voice-tools-server-unmute-all'' ''Server unmute all'' None
                 (Some (Invoke ''unmute'' c None)) []]
            else [])
           @ (if deafPermission then
                [MenuItem ''voice-tools-server-deafen-all'' ''Server deafen all'' None
                   (Some (Invoke ''deafen'' c None)) [],
                 MenuItem ''voice-tools-server-undeafen-all'' ''Server undeafen all''
                   (Some ''danger'') (Some (Invoke ''undeafen'' c None)) []]
              else [])
           @ (if movePermission then
                [MenuItem ''voice-tools-disconnect-all'' ''Disconnect all'' (Some ''danger'')
                   (Some (Invoke ''disconnect'' c None)) [],
                 MenuItem ''voice-tools-move-all'' ''Move all'' None None
                   (map (\<lambda>voiceChannel.
                           MenuItem (id' voiceChannel) (name voiceChannel) None
                             (Some (Invoke ''move'' c (Some voiceChannel))) [])
                        voiceChannels)]
              else []))]"

definition VoiceChannelContext_index ::
  "menu list \<Rightarrow> channel option \<Rightarrow> 'h world \<Rightarrow> menu list \<times> 'h world" where
  "VoiceChannelContext_index children chan w =
     (case chan of
        None \<Rightarrow> (children, w)
      | Some c \<Rightarrow>
          if type' c \<noteq> 2 \<and> type' c \<noteq> 13 then (children, w)
          else
            (let userCount = length (getVoiceStatesForChannel (stores w) (id' c));
                 w1 = w\<lparr>calls := calls w @ [GetVoiceStatesForChannel (id' c)]\<rparr>
             in if userCount = 0 then (children, w1)
                else
                  (let guildChannels = getChannels_VOCAL (stores w1) (guild_id c);
                       voiceChannels = filter (\<lambda>v. id' v \<noteq> id' c) (map fst guildChannels);
                       movePermission = True;
                       mutePermission = True;
                       deafPermission = True
                   in (splice children (- 1)
                         (VoiceTools_index c voiceChannels
                            movePermission mutePermission deafPermission),
                       w1))))"

section \<open>Reading a run\<close>

text \<open>What the properties below read off the steps of a run: the indices at which it
  paused, the producers it called, and the values the producers resolved with.\<close>

fun pause_indices :: "'a step list \<Rightarrow> nat list" where
  "pause_indices [] = []"
| "pause_indices (Paused i ms # st) = i # pause_indices st"
| "pause_indices (x # st) = pause_indices st"

fun called :: "'a step list \<Rightarrow> nat list" where
  "called [] = []"
| "called (Called i # st) = i # called st"
| "called (x # st) = called st"

fun resolved :: "'a step list \<Rightarrow> (nat \<times> 'a) list" where
  "resolved [] = []"
| "resolved (Resolved i r # st) = (i, r) # resolved st"
| "resolved (x # st) = resolved st"

fun rejected :: "'a step list \<Rightarrow> (nat \<times> error) list" where
  "rejected [] = []"
| "rejected (Rejected i e # st) = (i, e) # rejected st"
| "rejected (x # st) = rejected st"

text \<open>
  \<open>in_order i st\<close>: from producer \<open>i\<close> on, the steps are a call, the end of its
  promise, a pause of the same iteration or none, and then the next producer; a rejection
  is the last step.
\<close>

fun in_order :: "nat \<Rightarrow> 'a step list \<Rightarrow> bool" where
  "in_order i [] = True"
| "in_order i (Called j # Rejected k e # st) = (j = i \<and> k = i \<and> st = [])"
| "in_order i (Called j # Resolved k r # Paused l ms # st) =
     (j = i \<and> k = i \<and> l = i \<and> in_order (Suc i) st)"
| "in_order i (Called j # Resolved k r # st) = (j = i \<and> k = i \<and> in_order (Suc i) st)"
| "in_order i st = False"

text \<open>The calls a run has added to the log.\<close>

definition new_calls :: "'h world \<Rightarrow> 'h world \<Rightarrow> call list" where
  "new_calls w w' = drop (length (calls w)) (calls w')"

fun patches :: "call list \<Rightarrow> request list" where
  "patches [] = []"
| "patches (Patch r # cs) = r # patches cs"
| "patches (x # cs) = patches cs"

fun console_errors :: "call list \<Rightarrow> (string \<times> error) list" where
  "console_errors [] = []"
| "console_errors (ConsoleError m e # cs) = (m, e) # console_errors cs"
| "console_errors (x # cs) = console_errors cs"

text \<open>
  The requests that the stores \<open>s\<close> determine for a batch on channel \<open>c\<close> with body
  \<open>b\<close>: one for each voice state of the channel in \<open>s\<close>, the current user's left
  out unless \<open>includeSelf\<close>. And the log entries of the \<open>catch\<close> handler for a list
  of rejections.
\<close>

definition requests_for ::
  "channel \<Rightarrow> (string \<times> jvalue) list \<Rightarrow> bool \<Rightarrow> 'h stores \<Rightarrow> request list" where
  "requests_for c b includeSelf s =
     map (\<lambda>v. \<lparr>url = ''/guilds/'' @ guild_id c @ ''/members/'' @ userId v, body = b\<rparr>)
       (filter (\<lambda>v. includeSelf \<or> userId v \<noteq> getCurrentUser s) (getVoiceStatesForChannel s (id' c)))"

definition failure_log :: "(nat \<times> error) list \<Rightarrow> call list" where
  "failure_log rj = map (\<lambda>(k, e). ConsoleError ''VoiceChatUtilities failed to run'' e) rj"

text \<open>
  The members a local action goes through (the present members but the current user), the
  members a loop toggles when it brings the flags \<open>m\<close> to \<open>target\<close> (a member met
  twice is toggled once), and the part of the stores that the local actions change.
\<close>

definition roster :: "channel \<Rightarrow> 'h stores \<Rightarrow> string list" where
  "roster c s =
     map userId (filter (\<lambda>v. userId v \<noteq> getCurrentUser s) (getVoiceStatesForChannel s (id' c)))"

fun toggled :: "(string \<Rightarrow> bool) \<Rightarrow> bool \<Rightarrow> string list \<Rightarrow> string list" where
  "toggled m target [] = []"
| "toggled m target (u # us) =
     (if m u = target then toggled m target us else u # toggled (m(u := target)) target us)"

definition local_state :: "'h world \<Rightarrow> (string \<Rightarrow> bool) \<times> bool \<times> (string \<Rightarrow> bool)" where
  "local_state w = (isLocalMute (stores w), isSelfMute (stores w), isLocalSoundboardMuted (stores w))"

text \<open>The channels whose voice states a list of calls has read, and the calls that
  change where the user \<open>u\<close> is: a request for the member \<open>u\<close> of the guild of
  \<open>c\<close>, and the two direct calls of \<open>ChannelActions\<close>.\<close>

fun voice_state_reads :: "call list \<Rightarrow> string list" where
  "voice_state_reads [] = []"
| "voice_state_reads (GetVoiceStatesForChannel cid # cs) = cid # voice_state_reads cs"
| "voice_state_reads (x # cs) = voice_state_reads cs"

fun affects :: "channel \<Rightarrow> string \<Rightarrow> call \<Rightarrow> bool" where
  "affects c u (Patch r) = (url r = ''/guilds/'' @ guild_id c @ ''/members/'' @ u)"
| "affects c u Disconnect = True"
| "affects c u (SelectVoiceChannel cid) = True"
| "affects c u x = False"

text \<open>The parts of a menu element that the conditions of the submenu are read from: the
  children of an element, the id of an item, the ids of the items of a list, and the ids
  of the items that stand in the groups of an element.\<close>

fun menu_children :: "menu \<Rightarrow> menu list" where
  "menu_children (MenuItem i l col a ms) = ms"
| "menu_children (MenuGroup l ms) = ms"

fun menu_id :: "menu \<Rightarrow> string option" where
  "menu_id (MenuItem i l col a ms) = Some i"
| "menu_id (MenuGroup l ms) = None"

fun menu_ids :: "menu list \<Rightarrow> string list" where
  "menu_ids [] = []"
| "menu_ids (MenuItem i l col a ms # rest) = i # menu_ids rest"
| "menu_ids (MenuGroup l ms # rest) = menu_ids rest"

definition group_item_ids :: "menu \<Rightarrow> string list" where
  "group_item_ids m = menu_ids (concat (map menu_children (menu_children m)))"

text \<open>The same loop by recursion on the producers that are left, for the proofs.\<close>

fun run_from ::
  "'h host \<Rightarrow> nat \<Rightarrow> ('h, 'a) producer list \<Rightarrow> 'h world
    \<Rightarrow> (error + 'a list) \<times> 'h world \<times> 'a step list" where
  "run_from H i [] w = (Inr [], w, [])"
| "run_from H i (p # ps) w =
     (case p w of
        (Inl e, w1) \<Rightarrow> (Inl e, w1, [Called i, Rejected i e])
      | (Inr r, w1) \<Rightarrow>
          (if js_rem (int i) (waitAfter (settings_store (stores w1))) = Some 0
           then (case run_from H (Suc i) ps
                        (setTimeout_await H (waitSeconds (settings_store (stores w1)) * 1000) w1) of
                   (res, w', steps) \<Rightarrow>
                     (map_sum (\<lambda>e. e) (\<lambda>rs. r # rs) res, w',
                      [Called i, Resolved i r,
                       Paused i (waitSeconds (settings_store (stores w1)) * 1000)] @ steps))
           else (case run_from H (Suc i) ps w1 of
                   (res, w', steps) \<Rightarrow>
                     (map_sum (\<lambda>e. e) (\<lambda>rs. r # rs) res, w',
                      [Called i, Resolved i r] @ steps))))"

section \<open>Examples\<close>

text \<open>
  A voice channel with the members A, B and C, seen by A, with the default settings; a
  host that accepts every request, one that rejects every request, and one at which
  everybody has left the channel by the time the first request is answered; producers
  that resolve and reject without touching the world.
\<close>

definition defaults :: settings where
  "defaults = \<lparr>waitAfter = 5, waitSeconds = 2, includeSelfInActions = False\<rparr>"

definition lounge :: channel where
  "lounge = \<lparr>id' = ''100'', guild_id = ''7'', type' = 2, name = ''Lounge''\<rparr>"

definition stage :: channel where
  "stage = \<lparr>id' = ''200'', guild_id = ''7'', type' = 13, name = ''Stage''\<rparr>"

definition members_ABC :: "voice_state list" where
  "members_ABC = [\<lparr>userId = ''A'', channelId = ''100''\<rparr>,
                  \<lparr>userId = ''B'', channelId = ''100''\<rparr>,
                  \<lparr>userId = ''C'', channelId = ''100''\<rparr>]"

definition abc_stores :: "unit stores" where
  "abc_stores =
     \<lparr>getVoiceStatesForChannel = (\<lambda>cid. if cid = ''100'' then members_ABC else []),
      getCurrentUser = ''A'',
      getVoiceChannelId = Some ''100'',
      isLocalMute = (\<lambda>u. u = ''B''),
      isSelfMute = False,
      isLocalSoundboardMuted = (\<lambda>u. False),
      canWithPartialContext = (\<lambda>p cid. True),
      getChannels_VOCAL = (\<lambda>g. [(lounge, 0), (stage, 1)]),
      settings_store = defaults,
      hidden = ()\<rparr>"

definition abc_world :: "unit world" where
  "abc_world = \<lparr>stores = abc_stores, calls = []\<rparr>"

definition with_settings :: "settings \<Rightarrow> 'h world \<Rightarrow> 'h world" where
  "with_settings s w = w\<lparr>stores := (stores w)\<lparr>settings_store := s\<rparr>\<rparr>"

definition accepting :: "unit host" where
  "accepting = \<lparr>respond = (\<lambda>req s. (Inr ''ok'', s)), elapse = (\<lambda>ms s. s)\<rparr>"

definition refusing :: "unit host" where
  "refusing = \<lparr>respond = (\<lambda>req s. (Inl (Failure ''403''), s)), elapse = (\<lambda>ms s. s)\<rparr>"

definition emptying :: "unit host" where
  "emptying = \<lparr>respond = (\<lambda>req s. (Inr ''ok'', s\<lparr>getVoiceStatesForChannel := (\<lambda>cid. [])\<rparr>)),
               elapse = (\<lambda>ms s. s)\<rparr>"

definition resolving :: "'a \<Rightarrow> ('h, 'a) producer" where
  "resolving r w = (Inr r, w)"

definition rejecting :: "error \<Rightarrow> ('h, 'a) producer" where
  "rejecting e w = (Inl e, w)"

text \<open>
  The same channel seen by A on a client that is not connected to it (A is in the channel
  from another device), and seen by A without any permission.
\<close>

definition elsewhere_world :: "unit world" where
  "elsewhere_world = abc_world\<lparr>stores := abc_stores\<lparr>getVoiceChannelId := None\<rparr>\<rparr>"

definition no_permission_world :: "unit world" where
  "no_permission_world =
     abc_world\<lparr>stores := abc_stores\<lparr>canWithPartialContext := (\<lambda>p cid. False)\<rparr>\<rparr>"

section \<open>The loop of runSequential\<close>

lemma runSequential_loop_run_from:
  "runSequential_loop H promises i results w steps =
     (case run_from H i (drop i promises) w of
        (res, w', steps') \<Rightarrow> (map_sum (\<lambda>e. e) (\<lambda>rs. results @ rs) res, w', steps @ steps'))"
proof (induction H promises i results w steps rule: runSequential_loop.induct)
  case (1 H promises i results w steps)
  show ?case
  proof (cases "i < length promises")
    case False
    then show ?thesis
      by (simp add: runSequential_loop.simps [of H promises i])
  next
    case True
    then have d: "drop i promises = (promises ! i) # drop (Suc i) promises"
      by (simp add: Cons_nth_drop_Suc)
    obtain out w1 where pw: "(promises ! i) w = (out, w1)"
      by (cases "(promises ! i) w")
    show ?thesis
    proof (cases out)
      case (Inl e)
      with True pw d show ?thesis
        by (simp add: runSequential_loop.simps [of H promises i])
    next
      case (Inr r)
      show ?thesis
      proof (cases "js_rem (int i) (waitAfter (settings_store (stores w1))) = Some 0")
        case True
        note jt = this
        from "1.IH"(1) [OF \<open>i < length promises\<close> pw [symmetric] _ jt] Inr
        have "runSequential_loop H promises (i + 1) (results @ [r])
                (setTimeout_await H (waitSeconds (settings_store (stores w1)) * 1000) w1)
                (steps @ [Called i, Resolved i r,
                       Paused i (waitSeconds (settings_store (stores w1)) * 1000)]) =
              (case run_from H (i + 1) (drop (i + 1) promises)
                      (setTimeout_await H (waitSeconds (settings_store (stores w1)) * 1000) w1) of
                 (res, w', steps') \<Rightarrow>
                   (map_sum (\<lambda>e. e) (\<lambda>rs. (results @ [r]) @ rs) res, w',
                    (steps @ [Called i, Resolved i r,
                       Paused i (waitSeconds (settings_store (stores w1)) * 1000)]) @ steps'))"
          by simp
        with \<open>i < length promises\<close> pw d Inr jt show ?thesis
          by (simp add: runSequential_loop.simps [of H promises i] sum.map_comp comp_def split: prod.splits)
      next
        case False
        note jf = this
        from "1.IH"(2) [OF \<open>i < length promises\<close> pw [symmetric] _ jf] Inr
        have "runSequential_loop H promises (i + 1) (results @ [r]) w1
                (steps @ [Called i, Resolved i r]) =
              (case run_from H (i + 1) (drop (i + 1) promises) w1 of
                 (res, w', steps') \<Rightarrow>
                   (map_sum (\<lambda>e. e) (\<lambda>rs. (results @ [r]) @ rs) res, w',
                    (steps @ [Called i, Resolved i r]) @ steps'))"
          by simp
        with \<open>i < length promises\<close> pw d Inr jf show ?thesis
          by (simp add: runSequential_loop.simps [of H promises i] sum.map_comp comp_def split: prod.splits)
      qed
    qed
  qed
qed

lemma runSequential_run_from:
  "runSequential H promises w = run_from H 0 promises w"
  by (simp add: runSequential_def runSequential_loop_run_from sum.map_ident split: prod.splits)

lemma in_order_start:
  "in_order k st \<Longrightarrow> st = [] \<or> (\<exists>rest. st = Called k # rest)"
  by (induction k st rule: in_order.induct) auto

lemma in_order_ConsI:
  "in_order (Suc i) st \<Longrightarrow> in_order i (Called i # Resolved i r # st)"
  by (frule in_order_start) auto

lemma run_from_Cons_cases:
  assumes "run_from H i (p # ps) w = (res, w', st)"
  obtains (reject) e where "p w = (Inl e, w')" and "res = Inl e" and "st = [Called i, Rejected i e]"
  | (pause) r w1 res' st' where "p w = (Inr r, w1)"
      and "js_rem (int i) (waitAfter (settings_store (stores w1))) = Some 0"
      and "run_from H (Suc i) ps
             (setTimeout_await H (waitSeconds (settings_store (stores w1)) * 1000) w1) = (res', w', st')"
      and "res = map_sum (\<lambda>e. e) (\<lambda>rs. r # rs) res'"
      and "st = Called i # Resolved i r # Paused i (waitSeconds (settings_store (stores w1)) * 1000) # st'"
  | (go_on) r w1 res' st' where "p w = (Inr r, w1)"
      and "js_rem (int i) (waitAfter (settings_store (stores w1))) \<noteq> Some 0"
      and "run_from H (Suc i) ps w1 = (res', w', st')"
      and "res = map_sum (\<lambda>e. e) (\<lambda>rs. r # rs) res'"
      and "st = Called i # Resolved i r # st'"
  using assms by (auto split: prod.splits sum.splits if_splits)

lemma run_from_in_order:
  "run_from H i ps w = (res, w', st) \<Longrightarrow> in_order i st"
proof (induction ps arbitrary: i w res w' st)
  case Nil
  then show ?case by simp
next
  case (Cons p ps)
  from Cons.prems show ?case
  proof (cases rule: run_from_Cons_cases)
    case (reject e)
    then show ?thesis by simp
  next
    case (pause r w1 res' st')
    with Cons.IH show ?thesis by simp
  next
    case (go_on r w1 res' st')
    with Cons.IH show ?thesis by (simp add: in_order_ConsI)
  qed
qed




text \<open>What a run has called, resolved and rejected when it ends.\<close>

lemma run_from_rejected:
  "run_from H i ps w = (res, w', st) \<Longrightarrow>
     (case res of
        Inr rs \<Rightarrow> rejected st = [] \<and> called st = [i..<i + length ps]
      | Inl e \<Rightarrow> (\<exists>k. i \<le> k \<and> k < i + length ps \<and> rejected st = [(k, e)]
                 \<and> called st = [i..<Suc k] \<and> length (resolved st) = k - i))"
proof (induction ps arbitrary: i w res w' st)
  case Nil
  then show ?case by auto
next
  case (Cons p ps)
  have u: "[i..<i + length (p # ps)] = i # [Suc i..<Suc i + length ps]"
    by (simp del: upt_Suc add: upt_conv_Cons)
  from Cons.prems show ?case
  proof (cases rule: run_from_Cons_cases)
    case (reject e)
    then show ?thesis by auto
  next
    case (pause r w1 res' st')
    from Cons.IH [OF pause(3)] pause(4,5) u show ?thesis
      by (cases res') (auto simp: upt_conv_Cons)
  next
    case (go_on r w1 res' st')
    from Cons.IH [OF go_on(3)] go_on(4,5) u show ?thesis
      by (cases res') (auto simp: upt_conv_Cons)
  qed
qed






text \<open>Runs whose producers all resolve, runs with a first producer that rejects, and the
  run of a list in two parts.\<close>

lemma run_from_all_resolve:
  "\<forall>p\<in>set ps. \<forall>v. \<not> isl (fst (p v)) \<Longrightarrow> run_from H i ps w = (res, w', st) \<Longrightarrow> \<not> isl res"
proof (induction ps arbitrary: i w res w' st)
  case Nil
  then show ?case by auto
next
  case (Cons p ps)
  from Cons.prems(1) have P: "\<forall>p\<in>set ps. \<forall>v. \<not> isl (fst (p v))" by simp
  from Cons.prems(1) have pw: "\<not> isl (fst (p w))" by simp
  from Cons.prems(2) show ?case
  proof (cases rule: run_from_Cons_cases)
    case (reject e)
    with pw show ?thesis by simp
  next
    case (pause r w1 res' st')
    from Cons.IH [OF P pause(3)] pause(4) show ?thesis by (cases res') auto
  next
    case (go_on r w1 res' st')
    from Cons.IH [OF P go_on(3)] go_on(4) show ?thesis by (cases res') auto
  qed
qed

lemma run_from_first_reject:
  "k < length ps \<Longrightarrow> \<forall>j<k. \<forall>v. \<not> isl (fst ((ps ! j) v)) \<Longrightarrow> \<forall>v. fst ((ps ! k) v) = Inl e \<Longrightarrow>
     run_from H i ps w = (res, w', st) \<Longrightarrow> res = Inl e \<and> rejected st = [(i + k, e)]"
proof (induction ps arbitrary: i w res w' st k)
  case Nil
  then show ?case by simp
next
  case (Cons p ps)
  show ?case
  proof (cases k)
    case 0
    with Cons.prems(3) have pw: "fst (p w) = Inl e" by simp
    from Cons.prems(4) show ?thesis
    proof (cases rule: run_from_Cons_cases)
      case (reject e')
      with pw 0 show ?thesis by simp
    next
      case (pause r w1 res' st')
      with pw show ?thesis by simp
    next
      case (go_on r w1 res' st')
      with pw show ?thesis by simp
    qed
  next
    case (Suc k')
    with Cons.prems(1) have k': "k' < length ps" by simp
    from Suc Cons.prems(2) have pw: "\<not> isl (fst (p w))" by auto
    have R: "\<forall>j<k'. \<forall>v. \<not> isl (fst ((ps ! j) v))"
    proof (intro allI impI)
      fix j v assume "j < k'"
      with Suc have "Suc j < k" by simp
      with Cons.prems(2) have "\<not> isl (fst (((p # ps) ! Suc j) v))" by blast
      then show "\<not> isl (fst ((ps ! j) v))" by simp
    qed
    from Suc Cons.prems(3) have E: "\<forall>v. fst ((ps ! k') v) = Inl e" by simp
    from Cons.prems(4) show ?thesis
    proof (cases rule: run_from_Cons_cases)
      case (reject e')
      with pw show ?thesis by simp
    next
      case (pause r w1 res' st')
      from Cons.IH [OF k' R E pause(3)] pause(4,5) Suc show ?thesis by simp
    next
      case (go_on r w1 res' st')
      from Cons.IH [OF k' R E go_on(3)] go_on(4,5) Suc show ?thesis by simp
    qed
  qed
qed







section \<open>The batch of sendPatch\<close>

lemma calls_RestAPI_patch:
  "RestAPI_patch H req w = (out, w1) \<Longrightarrow> calls w1 = calls w @ [Patch req]"
  by (auto simp: RestAPI_patch_def Let_def split: prod.splits)

lemma calls_setTimeout_await [simp]:
  "calls (setTimeout_await H ms w) = calls w"
  by (simp add: setTimeout_await_def)

lemma run_from_patch_calls:
  "run_from H i (map (RestAPI_patch H) reqs) w = (res, w', st) \<Longrightarrow>
     calls w' = calls w @ map Patch (take (length (called st)) reqs)"
proof (induction reqs arbitrary: i w res w' st)
  case Nil
  then show ?case by simp
next
  case (Cons req reqs)
  from Cons.prems
  have "run_from H i (RestAPI_patch H req # map (RestAPI_patch H) reqs) w = (res, w', st)"
    by (simp only: list.map)
  then show ?case
  proof (cases rule: run_from_Cons_cases)
    case (reject e)
    then show ?thesis by (simp add: calls_RestAPI_patch)
  next
    case (pause r w1 res' st')
    from Cons.IH [OF pause(3)] calls_RestAPI_patch [OF pause(1)] pause(5)
    show ?thesis by simp
  next
    case (go_on r w1 res' st')
    from Cons.IH [OF go_on(3)] calls_RestAPI_patch [OF go_on(1)] go_on(5)
    show ?thesis by simp
  qed
qed

lemma sendPatch_calls:
  assumes "sendPatch H c b includeSelf w = (out, w', st)"
  shows "out = Inr ()"
    and "calls w' = calls w @ [GetVoiceStatesForChannel (id' c)]
            @ map Patch (take (length (called st)) (requests_for c b includeSelf (stores w)))
            @ failure_log (rejected st)"
    and "in_order 0 st"
    and "length (called st) \<le> length (requests_for c b includeSelf (stores w))"
    and "rejected st = [] \<Longrightarrow> length (called st) = length (requests_for c b includeSelf (stores w))"
proof -
  define w1 where "w1 = w\<lparr>calls := calls w @ [GetVoiceStatesForChannel (id' c)]\<rparr>"
  define reqs where "reqs = requests_for c b includeSelf (stores w)"
  obtain res w2 st2 where run: "run_from H 0 (map (RestAPI_patch H) reqs) w1 = (res, w2, st2)"
    by (cases "run_from H 0 (map (RestAPI_patch H) reqs) w1") auto
  have sp: "sendPatch H c b includeSelf w =
        (case res of Inl e \<Rightarrow> (Inr (), w2\<lparr>calls := calls w2 @ [ConsoleError ''VoiceChatUtilities failed to run'' e]\<rparr>, st2)
                   | Inr results \<Rightarrow> (Inr (), w2, st2))"
    using run
    by (simp add: sendPatch_def getVoiceStates_def Let_def runSequential_run_from
        requests_for_def reqs_def w1_def comp_def split: sum.splits)
  from run_from_patch_calls [OF run]
  have c2: "calls w2 = calls w @ [GetVoiceStatesForChannel (id' c)] @ map Patch (take (length (called st2)) reqs)"
    by (simp add: w1_def)
  from run_from_rejected [OF run]
  have rj: "case res of Inr rs \<Rightarrow> rejected st2 = [] \<and> called st2 = [0..<length reqs]
      | Inl e \<Rightarrow> (\<exists>k. k < length reqs \<and> rejected st2 = [(k, e)] \<and> called st2 = [0..<Suc k])"
    by (auto split: sum.splits)
  from sp assms have st: "st = st2" and o: "out = Inr ()" by (auto split: sum.splits)
  show "out = Inr ()" by (rule o)
  show "in_order 0 st" using run_from_in_order [OF run] st by simp
  show "calls w' = calls w @ [GetVoiceStatesForChannel (id' c)]
            @ map Patch (take (length (called st)) (requests_for c b includeSelf (stores w)))
            @ failure_log (rejected st)"
    using sp assms c2 rj st
    by (cases res) (auto simp: failure_log_def reqs_def)
  show "length (called st) \<le> length (requests_for c b includeSelf (stores w))"
    using rj st by (cases res) (auto simp: reqs_def)
  show "length (called st) = length (requests_for c b includeSelf (stores w))" if "rejected st = []"
    using rj st that by (cases res) (auto simp: reqs_def)
qed

lemma patches_append [simp]: "patches (xs @ ys) = patches xs @ patches ys"
  by (induction xs rule: patches.induct) auto

lemma patches_map_Patch [simp]: "patches (map Patch rs) = rs"
  by (induction rs) auto

lemma patches_failure_log [simp]: "patches (failure_log rj) = []"
  by (induction rj) (auto simp: failure_log_def)

lemma console_errors_append [simp]:
  "console_errors (xs @ ys) = console_errors xs @ console_errors ys"
  by (induction xs rule: console_errors.induct) auto

lemma console_errors_patches [simp]: "console_errors (map Patch rs) = []"
  by (induction rs) auto

lemma console_errors_failure_log [simp]:
  "console_errors (failure_log rj) = map (\<lambda>(k, e). (''VoiceChatUtilities failed to run'', e)) rj"
  by (induction rj) (auto simp: failure_log_def)

lemma voice_state_reads_append [simp]:
  "voice_state_reads (xs @ ys) = voice_state_reads xs @ voice_state_reads ys"
  by (induction xs rule: voice_state_reads.induct) auto

lemma voice_state_reads_map_Patch [simp]: "voice_state_reads (map Patch rs) = []"
  by (induction rs) auto

lemma voice_state_reads_failure_log [simp]: "voice_state_reads (failure_log rj) = []"
  by (induction rj) (auto simp: failure_log_def)

lemma sendPatch_new_calls:
  assumes "sendPatch H c b includeSelf w = (out, w', st)"
  shows "new_calls w w' = GetVoiceStatesForChannel (id' c)
            # map Patch (take (length (called st)) (requests_for c b includeSelf (stores w)))
            @ failure_log (rejected st)"
  using sendPatch_calls(2) [OF assms] by (simp add: new_calls_def)

text \<open>The batch at a host that accepts every request, and at a host whose first
  rejection is of the request at index \<open>k\<close>.\<close>

lemma RestAPI_patch_outcome:
  "fst (RestAPI_patch H req v) = fst (respond H req (stores v))"
  by (simp add: RestAPI_patch_def Let_def split: prod.splits)

lemma sendPatch_steps:
  assumes "sendPatch H c b includeSelf w = (out, w', st)"
  shows "\<exists>res w2. run_from H 0 (map (RestAPI_patch H) (requests_for c b includeSelf (stores w)))
                     (w\<lparr>calls := calls w @ [GetVoiceStatesForChannel (id' c)]\<rparr>) = (res, w2, st)"
proof -
  define w1 where "w1 = w\<lparr>calls := calls w @ [GetVoiceStatesForChannel (id' c)]\<rparr>"
  define reqs where "reqs = requests_for c b includeSelf (stores w)"
  obtain res w2 st2 where run: "run_from H 0 (map (RestAPI_patch H) reqs) w1 = (res, w2, st2)"
    by (cases "run_from H 0 (map (RestAPI_patch H) reqs) w1") auto
  have "sendPatch H c b includeSelf w =
        (case res of Inl e \<Rightarrow> (Inr (), w2\<lparr>calls := calls w2 @ [ConsoleError ''VoiceChatUtilities failed to run'' e]\<rparr>, st2)
                   | Inr results \<Rightarrow> (Inr (), w2, st2))"
    using run
    by (simp add: sendPatch_def getVoiceStates_def Let_def runSequential_run_from
        requests_for_def reqs_def w1_def comp_def split: sum.splits)
  with assms have "st = st2" by (auto split: sum.splits)
  with run show ?thesis by (auto simp: w1_def reqs_def)
qed

lemma sendPatch_runSequential:
  "sendPatch H c b includeSelf w =
     (case runSequential H (map (RestAPI_patch H) (requests_for c b includeSelf (stores w)))
             (w\<lparr>calls := calls w @ [GetVoiceStatesForChannel (id' c)]\<rparr>) of
        (Inl e, w2, st) \<Rightarrow>
          (Inr (), w2\<lparr>calls := calls w2 @ [ConsoleError ''VoiceChatUtilities failed to run'' e]\<rparr>, st)
      | (Inr results, w2, st) \<Rightarrow> (Inr (), w2, st))"
  by (simp add: sendPatch_def getVoiceStates_def Let_def requests_for_def comp_def)

lemma sendPatch_all_accepted:
  assumes "\<forall>req s. \<not> isl (fst (respond H req s))"
    and "sendPatch H c b includeSelf w = (out, w', st)"
  shows "new_calls w w' = GetVoiceStatesForChannel (id' c)
            # map Patch (requests_for c b includeSelf (stores w))"
    and "rejected st = []"
    and "called st = [0..<length (requests_for c b includeSelf (stores w))]"
proof -
  from sendPatch_steps [OF assms(2)] obtain res w2 where
    run: "run_from H 0 (map (RestAPI_patch H) (requests_for c b includeSelf (stores w)))
                     (w\<lparr>calls := calls w @ [GetVoiceStatesForChannel (id' c)]\<rparr>) = (res, w2, st)"
    by blast
  have "\<forall>p\<in>set (map (RestAPI_patch H) (requests_for c b includeSelf (stores w))).
          \<forall>v. \<not> isl (fst (p v))"
    using assms(1) by (auto simp: RestAPI_patch_outcome)
  from run_from_all_resolve [OF this run] run_from_rejected [OF run]
  have r: "rejected st = []" and c: "called st = [0..<length (requests_for c b includeSelf (stores w))]"
    by (cases res; simp)+
  show "rejected st = []" by (rule r)
  show "called st = [0..<length (requests_for c b includeSelf (stores w))]" by (rule c)
  show "new_calls w w' = GetVoiceStatesForChannel (id' c)
            # map Patch (requests_for c b includeSelf (stores w))"
    using sendPatch_new_calls [OF assms(2)] r c by (simp add: failure_log_def)
qed

lemma sendPatch_first_rejected:
  assumes "k < length (requests_for c b includeSelf (stores w))"
    and "\<forall>j<k. \<forall>s. \<not> isl (fst (respond H (requests_for c b includeSelf (stores w) ! j) s))"
    and "\<forall>s. fst (respond H (requests_for c b includeSelf (stores w) ! k) s) = Inl e"
    and "sendPatch H c b includeSelf w = (out, w', st)"
  shows "new_calls w w' = GetVoiceStatesForChannel (id' c)
            # map Patch (take (Suc k) (requests_for c b includeSelf (stores w)))
            @ [ConsoleError ''VoiceChatUtilities failed to run'' e]"
    and "rejected st = [(k, e)]"
    and "called st = [0..<Suc k]"
proof -
  let ?reqs = "requests_for c b includeSelf (stores w)"
  let ?ps = "map (RestAPI_patch H) ?reqs"
  from sendPatch_steps [OF assms(4)] obtain res w2 where
    run: "run_from H 0 ?ps (w\<lparr>calls := calls w @ [GetVoiceStatesForChannel (id' c)]\<rparr>) = (res, w2, st)"
    by blast
  have k: "k < length ?ps" using assms(1) by simp
  have a: "\<forall>j<k. \<forall>v. \<not> isl (fst ((?ps ! j) v))"
    using assms(1,2) by (auto simp: RestAPI_patch_outcome)
  have b: "\<forall>v. fst ((?ps ! k) v) = Inl e"
    using assms(1,3) by (auto simp: RestAPI_patch_outcome)
  from run_from_first_reject [OF k a b run] have res: "res = Inl e" and r: "rejected st = [(k, e)]"
    by simp_all
  from run_from_rejected [OF run] res r have c: "called st = [0..<Suc k]"
    by auto
  show "rejected st = [(k, e)]" by (rule r)
  show "called st = [0..<Suc k]" by (rule c)
  show "new_calls w w' = GetVoiceStatesForChannel (id' c)
            # map Patch (take (Suc k) (requests_for c b includeSelf (stores w)))
            @ [ConsoleError ''VoiceChatUtilities failed to run'' e]"
    using sendPatch_new_calls [OF assms(4)] r c by (simp add: failure_log_def)
qed

section \<open>The local actions\<close>

lemma set_toggled: "set (toggled m t us) = {u \<in> set us. m u \<noteq> t}"
  by (induction us arbitrary: m) auto

lemma toggled_done: "\<forall>u\<in>set us. m u = t \<Longrightarrow> toggled m t us = []"
  by (induction us) auto

lemma toggled_again:
  "toggled (\<lambda>u. if u \<in> set us then t else m u) t us = []"
  by (rule toggled_done) simp

lemma forEach_toggle:
  assumes f: "\<And>x v. f x v = (if get (stores v) (userId x) = target then v else tog (userId x) v)"
    and get_tog: "\<And>u v. get (stores (tog u v)) = (get (stores v))(u := \<not> get (stores v) u)"
    and calls_tog: "\<And>u v. calls (tog u v) = calls v @ [ev u]"
  shows "get (stores (forEach f xs w)) =
           (\<lambda>u. if u \<in> userId ` set xs then target else get (stores w) u)
         \<and> calls (forEach f xs w) =
           calls w @ map ev (toggled (get (stores w)) target (map userId xs))"
proof (induction xs arbitrary: w)
  case Nil
  show ?case by simp
next
  case (Cons x xs)
  show ?case
  proof (cases "get (stores w) (userId x) = target")
    case True
    then have step: "forEach f (x # xs) w = forEach f xs w"
      by (simp add: f)
    have "(\<lambda>u. if u \<in> userId ` set xs then target else get (stores w) u) =
          (\<lambda>u. if u \<in> userId ` set (x # xs) then target else get (stores w) u)"
      using True by (auto simp: fun_eq_iff)
    with Cons [of w] True show ?thesis
      by (simp only: step) simp
  next
    case False
    define m' where "m' = (get (stores w))(userId x := target)"
    from False have step: "forEach f (x # xs) w = forEach f xs (tog (userId x) w)"
      by (simp add: f)
    have m: "get (stores (tog (userId x) w)) = m'"
      using False by (auto simp: get_tog fun_eq_iff m'_def)
    have t: "toggled (get (stores w)) target (map userId (x # xs)) =
             userId x # toggled m' target (map userId xs)"
      using False by (simp add: m'_def)
    have g: "(\<lambda>u. if u \<in> userId ` set xs then target else m' u) =
          (\<lambda>u. if u \<in> userId ` set (x # xs) then target else get (stores w) u)"
      by (auto simp: fun_eq_iff m'_def)
    from Cons [of "tog (userId x) w"] show ?thesis
      by (simp only: step m calls_tog t g) simp
  qed
qed

lemma forEach_keeps:
  assumes f: "\<And>x v. f x v = (if get (stores v) (userId x) = target then v else tog (userId x) v)"
    and keep: "\<And>u v. other (stores (tog u v)) = other (stores v)"
  shows "other (stores (forEach f xs w)) = other (stores w)"
  by (induction xs arbitrary: w) (simp_all add: f keep)

lemma toggleLocalMute_simps [simp]:
  "isLocalMute (stores (toggleLocalMute u w)) = (isLocalMute (stores w))(u := \<not> isLocalMute (stores w) u)"
  "isSelfMute (stores (toggleLocalMute u w)) = isSelfMute (stores w)"
  "isLocalSoundboardMuted (stores (toggleLocalMute u w)) = isLocalSoundboardMuted (stores w)"
  "getVoiceStatesForChannel (stores (toggleLocalMute u w)) = getVoiceStatesForChannel (stores w)"
  "getCurrentUser (stores (toggleLocalMute u w)) = getCurrentUser (stores w)"
  "settings_store (stores (toggleLocalMute u w)) = settings_store (stores w)"
  "calls (toggleLocalMute u w) = calls w @ [ToggleLocalMute u]"
  by (simp_all add: toggleLocalMute_def)

lemma toggleLocalSoundboardMute_simps [simp]:
  "isLocalSoundboardMuted (stores (toggleLocalSoundboardMute u w)) =
     (isLocalSoundboardMuted (stores w))(u := \<not> isLocalSoundboardMuted (stores w) u)"
  "isSelfMute (stores (toggleLocalSoundboardMute u w)) = isSelfMute (stores w)"
  "isLocalMute (stores (toggleLocalSoundboardMute u w)) = isLocalMute (stores w)"
  "getVoiceStatesForChannel (stores (toggleLocalSoundboardMute u w)) = getVoiceStatesForChannel (stores w)"
  "getCurrentUser (stores (toggleLocalSoundboardMute u w)) = getCurrentUser (stores w)"
  "settings_store (stores (toggleLocalSoundboardMute u w)) = settings_store (stores w)"
  "calls (toggleLocalSoundboardMute u w) = calls w @ [ToggleLocalSoundboardMute u]"
  by (simp_all add: toggleLocalSoundboardMute_def)

lemma toggleSelfMute_simps [simp]:
  "isSelfMute (stores (toggleSelfMute w)) = (\<not> isSelfMute (stores w))"
  "isLocalMute (stores (toggleSelfMute w)) = isLocalMute (stores w)"
  "isLocalSoundboardMuted (stores (toggleSelfMute w)) = isLocalSoundboardMuted (stores w)"
  "getVoiceStatesForChannel (stores (toggleSelfMute w)) = getVoiceStatesForChannel (stores w)"
  "getCurrentUser (stores (toggleSelfMute w)) = getCurrentUser (stores w)"
  "settings_store (stores (toggleSelfMute w)) = settings_store (stores w)"
  "calls (toggleSelfMute w) = calls w @ [ToggleSelfMute]"
  by (simp_all add: toggleSelfMute_def)

text \<open>What each local action leaves behind.\<close>

lemma mute_effect:
  "isLocalMute (stores (mute c w)) =
     (\<lambda>u. if u \<in> set (roster c (stores w)) then True else isLocalMute (stores w) u)"
  "isSelfMute (stores (mute c w)) =
     (if includeSelfInActions (settings_store (stores w)) then True else isSelfMute (stores w))"
  "isLocalSoundboardMuted (stores (mute c w)) = isLocalSoundboardMuted (stores w)"
  "getVoiceStatesForChannel (stores (mute c w)) = getVoiceStatesForChannel (stores w)"
  "getCurrentUser (stores (mute c w)) = getCurrentUser (stores w)"
  "settings_store (stores (mute c w)) = settings_store (stores w)"
  "calls (mute c w) = calls w @ [GetVoiceStatesForChannel (id' c)]
     @ map ToggleLocalMute (toggled (isLocalMute (stores w)) True (roster c (stores w)))
     @ (if includeSelfInActions (settings_store (stores w)) \<and> \<not> isSelfMute (stores w)
        then [ToggleSelfMute] else [])"
proof -
  let ?f = "\<lambda>state v. if isLocalMute (stores v) (userId state) then v
                        else toggleLocalMute (userId state) v"
  have f: "\<And>x v. ?f x v = (if isLocalMute (stores v) (userId x) = True then v
                             else toggleLocalMute (userId x) v)"
    by simp
  note main = forEach_toggle [of ?f isLocalMute True toggleLocalMute ToggleLocalMute, OF f]
  note keep = forEach_keeps [of ?f isLocalMute True toggleLocalMute, OF f]
  show "isLocalMute (stores (mute c w)) =
     (\<lambda>u. if u \<in> set (roster c (stores w)) then True else isLocalMute (stores w) u)"
    by (simp add: mute_def getVoiceStates_def Let_def main roster_def)
  show "isSelfMute (stores (mute c w)) =
     (if includeSelfInActions (settings_store (stores w)) then True else isSelfMute (stores w))"
    by (simp add: mute_def getVoiceStates_def Let_def keep)
  show "isLocalSoundboardMuted (stores (mute c w)) = isLocalSoundboardMuted (stores w)"
    by (simp add: mute_def getVoiceStates_def Let_def keep)
  show "getVoiceStatesForChannel (stores (mute c w)) = getVoiceStatesForChannel (stores w)"
    by (simp add: mute_def getVoiceStates_def Let_def keep)
  show "getCurrentUser (stores (mute c w)) = getCurrentUser (stores w)"
    by (simp add: mute_def getVoiceStates_def Let_def keep)
  show "settings_store (stores (mute c w)) = settings_store (stores w)"
    by (simp add: mute_def getVoiceStates_def Let_def keep)
  show "calls (mute c w) = calls w @ [GetVoiceStatesForChannel (id' c)]
     @ map ToggleLocalMute (toggled (isLocalMute (stores w)) True (roster c (stores w)))
     @ (if includeSelfInActions (settings_store (stores w)) \<and> \<not> isSelfMute (stores w)
        then [ToggleSelfMute] else [])"
    by (simp add: mute_def getVoiceStates_def Let_def main keep roster_def)
qed

lemma unmute_effect:
  "isLocalMute (stores (unmute c w)) =
     (\<lambda>u. if u \<in> set (roster c (stores w)) then False else isLocalMute (stores w) u)"
  "isSelfMute (stores (unmute c w)) =
     (if includeSelfInActions (settings_store (stores w)) then False else isSelfMute (stores w))"
  "isLocalSoundboardMuted (stores (unmute c w)) = isLocalSoundboardMuted (stores w)"
  "getVoiceStatesForChannel (stores (unmute c w)) = getVoiceStatesForChannel (stores w)"
  "getCurrentUser (stores (unmute c w)) = getCurrentUser (stores w)"
  "settings_store (stores (unmute c w)) = settings_store (stores w)"
  "calls (unmute c w) = calls w @ [GetVoiceStatesForChannel (id' c)]
     @ map ToggleLocalMute (toggled (isLocalMute (stores w)) False (roster c (stores w)))
     @ (if includeSelfInActions (settings_store (stores w)) \<and> isSelfMute (stores w)
        then [ToggleSelfMute] else [])"
proof -
  let ?f = "\<lambda>state v. if isLocalMute (stores v) (userId state)
                        then toggleLocalMute (userId state) v else v"
  have f: "\<And>x v. ?f x v = (if isLocalMute (stores v) (userId x) = False then v
                             else toggleLocalMute (userId x) v)"
    by simp
  note main = forEach_toggle [of ?f isLocalMute False toggleLocalMute ToggleLocalMute, OF f]
  note keep = forEach_keeps [of ?f isLocalMute False toggleLocalMute, OF f]
  show "isLocalMute (stores (unmute c w)) =
     (\<lambda>u. if u \<in> set (roster c (stores w)) then False else isLocalMute (stores w) u)"
    by (simp add: unmute_def getVoiceStates_def Let_def main roster_def)
  show "isSelfMute (stores (unmute c w)) =
     (if includeSelfInActions (settings_store (stores w)) then False else isSelfMute (stores w))"
    by (simp add: unmute_def getVoiceStates_def Let_def keep)
  show "isLocalSoundboardMuted (stores (unmute c w)) = isLocalSoundboardMuted (stores w)"
    by (simp add: unmute_def getVoiceStates_def Let_def keep)
  show "getVoiceStatesForChannel (stores (unmute c w)) = getVoiceStatesForChannel (stores w)"
    by (simp add: unmute_def getVoiceStates_def Let_def keep)
  show "getCurrentUser (stores (unmute c w)) = getCurrentUser (stores w)"
    by (simp add: unmute_def getVoiceStates_def Let_def keep)
  show "settings_store (stores (unmute c w)) = settings_store (stores w)"
    by (simp add: unmute_def getVoiceStates_def Let_def keep)
  show "calls (unmute c w) = calls w @ [GetVoiceStatesForChannel (id' c)]
     @ map ToggleLocalMute (toggled (isLocalMute (stores w)) False (roster c (stores w)))
     @ (if includeSelfInActions (settings_store (stores w)) \<and> isSelfMute (stores w)
        then [ToggleSelfMute] else [])"
    by (simp add: unmute_def getVoiceStates_def Let_def main keep roster_def)
qed

lemma muteSoundboards_effect:
  "isLocalSoundboardMuted (stores (muteSoundboards c w)) =
     (\<lambda>u. if u \<in> set (roster c (stores w)) then True else isLocalSoundboardMuted (stores w) u)"
  "isSelfMute (stores (muteSoundboards c w)) = isSelfMute (stores w)"
  "isLocalMute (stores (muteSoundboards c w)) = isLocalMute (stores w)"
  "getVoiceStatesForChannel (stores (muteSoundboards c w)) = getVoiceStatesForChannel (stores w)"
  "getCurrentUser (stores (muteSoundboards c w)) = getCurrentUser (stores w)"
  "settings_store (stores (muteSoundboards c w)) = settings_store (stores w)"
  "calls (muteSoundboards c w) = calls w @ [GetVoiceStatesForChannel (id' c)]
     @ map ToggleLocalSoundboardMute
         (toggled (isLocalSoundboardMuted (stores w)) True (roster c (stores w)))"
proof -
  let ?f = "\<lambda>state v. if isLocalSoundboardMuted (stores v) (userId state) then v
                        else toggleLocalSoundboardMute (userId state) v"
  have f: "\<And>x v. ?f x v = (if isLocalSoundboardMuted (stores v) (userId x) = True then v
                             else toggleLocalSoundboardMute (userId x) v)"
    by simp
  note main = forEach_toggle [of ?f isLocalSoundboardMuted True toggleLocalSoundboardMute
      ToggleLocalSoundboardMute, OF f]
  note keep = forEach_keeps [of ?f isLocalSoundboardMuted True toggleLocalSoundboardMute, OF f]
  show "isLocalSoundboardMuted (stores (muteSoundboards c w)) =
     (\<lambda>u. if u \<in> set (roster c (stores w)) then True else isLocalSoundboardMuted (stores w) u)"
    by (simp add: muteSoundboards_def getVoiceStates_def Let_def main roster_def)
  show "isSelfMute (stores (muteSoundboards c w)) = isSelfMute (stores w)"
    by (simp add: muteSoundboards_def getVoiceStates_def Let_def keep)
  show "isLocalMute (stores (muteSoundboards c w)) = isLocalMute (stores w)"
    by (simp add: muteSoundboards_def getVoiceStates_def Let_def keep)
  show "getVoiceStatesForChannel (stores (muteSoundboards c w)) = getVoiceStatesForChannel (stores w)"
    by (simp add: muteSoundboards_def getVoiceStates_def Let_def keep)
  show "getCurrentUser (stores (muteSoundboards c w)) = getCurrentUser (stores w)"
    by (simp add: muteSoundboards_def getVoiceStates_def Let_def keep)
  show "settings_store (stores (muteSoundboards c w)) = settings_store (stores w)"
    by (simp add: muteSoundboards_def getVoiceStates_def Let_def keep)
  show "calls (muteSoundboards c w) = calls w @ [GetVoiceStatesForChannel (id' c)]
     @ map ToggleLocalSoundboardMute
         (toggled (isLocalSoundboardMuted (stores w)) True (roster c (stores w)))"
    by (simp add: muteSoundboards_def getVoiceStates_def Let_def main roster_def)
qed

lemma unmuteSoundboards_effect:
  "isLocalSoundboardMuted (stores (unmuteSoundboards c w)) =
     (\<lambda>u. if u \<in> set (roster c (stores w)) then False else isLocalSoundboardMuted (stores w) u)"
  "isSelfMute (stores (unmuteSoundboards c w)) = isSelfMute (stores w)"
  "isLocalMute (stores (unmuteSoundboards c w)) = isLocalMute (stores w)"
  "getVoiceStatesForChannel (stores (unmuteSoundboards c w)) = getVoiceStatesForChannel (stores w)"
  "getCurrentUser (stores (unmuteSoundboards c w)) = getCurrentUser (stores w)"
  "settings_store (stores (unmuteSoundboards c w)) = settings_store (stores w)"
  "calls (unmuteSoundboards c w) = calls w @ [GetVoiceStatesForChannel (id' c)]
     @ map ToggleLocalSoundboardMute
         (toggled (isLocalSoundboardMuted (stores w)) False (roster c (stores w)))"
proof -
  let ?f = "\<lambda>state v. if isLocalSoundboardMuted (stores v) (userId state)
                        then toggleLocalSoundboardMute (userId state) v else v"
  have f: "\<And>x v. ?f x v = (if isLocalSoundboardMuted (stores v) (userId x) = False then v
                             else toggleLocalSoundboardMute (userId x) v)"
    by simp
  note main = forEach_toggle [of ?f isLocalSoundboardMuted False toggleLocalSoundboardMute
      ToggleLocalSoundboardMute, OF f]
  note keep = forEach_keeps [of ?f isLocalSoundboardMuted False toggleLocalSoundboardMute, OF f]
  show "isLocalSoundboardMuted (stores (unmuteSoundboards c w)) =
     (\<lambda>u. if u \<in> set (roster c (stores w)) then False else isLocalSoundboardMuted (stores w) u)"
    by (simp add: unmuteSoundboards_def getVoiceStates_def Let_def main roster_def)
  show "isSelfMute (stores (unmuteSoundboards c w)) = isSelfMute (stores w)"
    by (simp add: unmuteSoundboards_def getVoiceStates_def Let_def keep)
  show "isLocalMute (stores (unmuteSoundboards c w)) = isLocalMute (stores w)"
    by (simp add: unmuteSoundboards_def getVoiceStates_def Let_def keep)
  show "getVoiceStatesForChannel (stores (unmuteSoundboards c w)) = getVoiceStatesForChannel (stores w)"
    by (simp add: unmuteSoundboards_def getVoiceStates_def Let_def keep)
  show "getCurrentUser (stores (unmuteSoundboards c w)) = getCurrentUser (stores w)"
    by (simp add: unmuteSoundboards_def getVoiceStates_def Let_def keep)
  show "settings_store (stores (unmuteSoundboards c w)) = settings_store (stores w)"
    by (simp add: unmuteSoundboards_def getVoiceStates_def Let_def keep)
  show "calls (unmuteSoundboards c w) = calls w @ [GetVoiceStatesForChannel (id' c)]
     @ map ToggleLocalSoundboardMute
         (toggled (isLocalSoundboardMuted (stores w)) False (roster c (stores w)))"
    by (simp add: unmuteSoundboards_def getVoiceStates_def Let_def main roster_def)
qed

lemma roster_not_self: "getCurrentUser s \<notin> set (roster c s)"
  by (auto simp: roster_def)

lemma roster_same:
  "getVoiceStatesForChannel s' = getVoiceStatesForChannel s \<Longrightarrow> getCurrentUser s' = getCurrentUser s
     \<Longrightarrow> roster c s' = roster c s"
  by (simp add: roster_def)

text \<open>A local action applied twice, and the toggles of one application.\<close>

lemma mute_twice:
  "local_state (mute c (mute c w)) = local_state (mute c w)"
  "new_calls (mute c w) (mute c (mute c w)) = [GetVoiceStatesForChannel (id' c)]"
proof -
  have r: "roster c (stores (mute c w)) = roster c (stores w)"
    by (rule roster_same) (simp_all add: mute_effect)
  show "local_state (mute c (mute c w)) = local_state (mute c w)"
    by (simp add: local_state_def mute_effect [of c "mute c w"] r) (simp add: mute_effect fun_eq_iff)
  show "new_calls (mute c w) (mute c (mute c w)) = [GetVoiceStatesForChannel (id' c)]"
    by (simp add: new_calls_def mute_effect(7) [of c "mute c w"] r)
       (simp add: mute_effect toggled_again)
qed

lemma unmute_twice:
  "local_state (unmute c (unmute c w)) = local_state (unmute c w)"
  "new_calls (unmute c w) (unmute c (unmute c w)) = [GetVoiceStatesForChannel (id' c)]"
proof -
  have r: "roster c (stores (unmute c w)) = roster c (stores w)"
    by (rule roster_same) (simp_all add: unmute_effect)
  show "local_state (unmute c (unmute c w)) = local_state (unmute c w)"
    by (simp add: local_state_def unmute_effect [of c "unmute c w"] r) (simp add: unmute_effect fun_eq_iff)
  show "new_calls (unmute c w) (unmute c (unmute c w)) = [GetVoiceStatesForChannel (id' c)]"
    by (simp add: new_calls_def unmute_effect(7) [of c "unmute c w"] r)
       (simp add: unmute_effect toggled_again)
qed

lemma muteSoundboards_twice:
  "local_state (muteSoundboards c (muteSoundboards c w)) = local_state (muteSoundboards c w)"
  "new_calls (muteSoundboards c w) (muteSoundboards c (muteSoundboards c w)) =
     [GetVoiceStatesForChannel (id' c)]"
proof -
  have r: "roster c (stores (muteSoundboards c w)) = roster c (stores w)"
    by (rule roster_same) (simp_all add: muteSoundboards_effect)
  show "local_state (muteSoundboards c (muteSoundboards c w)) = local_state (muteSoundboards c w)"
    by (simp add: local_state_def muteSoundboards_effect [of c "muteSoundboards c w"] r)
       (simp add: muteSoundboards_effect fun_eq_iff)
  show "new_calls (muteSoundboards c w) (muteSoundboards c (muteSoundboards c w)) =
     [GetVoiceStatesForChannel (id' c)]"
    by (simp add: new_calls_def muteSoundboards_effect(7) [of c "muteSoundboards c w"] r)
       (simp add: muteSoundboards_effect toggled_again)
qed

lemma unmuteSoundboards_twice:
  "local_state (unmuteSoundboards c (unmuteSoundboards c w)) = local_state (unmuteSoundboards c w)"
  "new_calls (unmuteSoundboards c w) (unmuteSoundboards c (unmuteSoundboards c w)) =
     [GetVoiceStatesForChannel (id' c)]"
proof -
  have r: "roster c (stores (unmuteSoundboards c w)) = roster c (stores w)"
    by (rule roster_same) (simp_all add: unmuteSoundboards_effect)
  show "local_state (unmuteSoundboards c (unmuteSoundboards c w)) = local_state (unmuteSoundboards c w)"
    by (simp add: local_state_def unmuteSoundboards_effect [of c "unmuteSoundboards c w"] r)
       (simp add: unmuteSoundboards_effect fun_eq_iff)
  show "new_calls (unmuteSoundboards c w) (unmuteSoundboards c (unmuteSoundboards c w)) =
     [GetVoiceStatesForChannel (id' c)]"
    by (simp add: new_calls_def unmuteSoundboards_effect(7) [of c "unmuteSoundboards c w"] r)
       (simp add: unmuteSoundboards_effect toggled_again)
qed

lemma local_toggles:
  "(ToggleLocalMute u \<in> set (new_calls w (mute c w))) =
     (u \<in> set (roster c (stores w)) \<and> \<not> isLocalMute (stores w) u)"
  "(ToggleLocalMute u \<in> set (new_calls w (unmute c w))) =
     (u \<in> set (roster c (stores w)) \<and> isLocalMute (stores w) u)"
  "(ToggleSelfMute \<in> set (new_calls w (mute c w))) =
     (includeSelfInActions (settings_store (stores w)) \<and> \<not> isSelfMute (stores w))"
  "(ToggleSelfMute \<in> set (new_calls w (unmute c w))) =
     (includeSelfInActions (settings_store (stores w)) \<and> isSelfMute (stores w))"
  "(ToggleLocalSoundboardMute u \<in> set (new_calls w (muteSoundboards c w))) =
     (u \<in> set (roster c (stores w)) \<and> \<not> isLocalSoundboardMuted (stores w) u)"
  "(ToggleLocalSoundboardMute u \<in> set (new_calls w (unmuteSoundboards c w))) =
     (u \<in> set (roster c (stores w)) \<and> isLocalSoundboardMuted (stores w) u)"
  by (auto simp: new_calls_def mute_effect unmute_effect muteSoundboards_effect
      unmuteSoundboards_effect set_toggled)

section \<open>The items of the submenu\<close>

lemma menu_ids_append [simp]: "menu_ids (xs @ ys) = menu_ids xs @ menu_ids ys"
  by (induction xs rule: menu_ids.induct) auto

lemma group_item_ids_VoiceTools:
  "group_item_ids (VoiceTools c others vcs movePermission mutePermission deafPermission) =
     [''voice-tools-mute-all'', ''voice-tools-unmute-all'']
     @ (if others then [''voice-tools-soundboard-sound-mute-all'',
                        ''voice-tools-soundboard-sound-unmute-all''] else [])
     @ (if mutePermission then [''voice-tools-server-mute-all'', ''voice-tools-server-unmute-all'']
        else [])
     @ (if deafPermission then [''voice-tools-server-deafen-all'',
                                ''voice-tools-server-undeafen-all''] else [])
     @ (if movePermission then [''voice-tools-disconnect-all'', ''voice-tools-move-all''] else [])"
  by (simp add: group_item_ids_def VoiceTools_def)

lemma menu_id_VoiceTools [simp]:
  "menu_id (VoiceTools c others vcs movePermission mutePermission deafPermission) = Some ''voice-tools''"
  by (simp add: VoiceTools_def)

text \<open>
  The callback \<open>VoiceChannelContext\<close> leaves the menu as it is, or the contextual
  channel exists, is a voice or a stage channel and has a member that counts under
  \<open>includeSelfInActions\<close>, and the callback has inserted one element before the last
  one: the item \<open>voice-tools\<close>, in whose groups the two server mute items stand exactly
  when the user can mute members in that channel, the two deafen items exactly when the
  user can deafen members, and the disconnect and move items exactly when the user can
  move members.
\<close>

theorem VoiceChannelContext_permissions:
  assumes "VoiceChannelContext children chan w = (children', w')"
  shows "children' = children \<or>
         (\<exists>c E. chan = Some c \<and> (type' c = 2 \<or> type' c = 13)
            \<and> filter (\<lambda>v. includeSelfInActions (settings_store (stores w))
                           \<or> userId v \<noteq> getCurrentUser (stores w))
                 (getVoiceStatesForChannel (stores w) (id' c)) \<noteq> []
            \<and> children' = splice children (- 1) E
            \<and> menu_id E = Some ''voice-tools''
            \<and> (''voice-tools-server-mute-all'' \<in> set (group_item_ids E))
                = canWithPartialContext (stores w) MUTE_MEMBERS (id' c)
            \<and> (''voice-tools-server-unmute-all'' \<in> set (group_item_ids E))
                = canWithPartialContext (stores w) MUTE_MEMBERS (id' c)
            \<and> (''voice-tools-server-deafen-all'' \<in> set (group_item_ids E))
                = canWithPartialContext (stores w) DEAFEN_MEMBERS (id' c)
            \<and> (''voice-tools-server-undeafen-all'' \<in> set (group_item_ids E))
                = canWithPartialContext (stores w) DEAFEN_MEMBERS (id' c)
            \<and> (''voice-tools-disconnect-all'' \<in> set (group_item_ids E))
                = canWithPartialContext (stores w) MOVE_MEMBERS (id' c)
            \<and> (''voice-tools-move-all'' \<in> set (group_item_ids E))
                = canWithPartialContext (stores w) MOVE_MEMBERS (id' c))"
proof (cases chan)
  case None
  with assms show ?thesis by (simp add: VoiceChannelContext_def)
next
  case (Some c)
  show ?thesis
  proof (cases "(type' c = 2 \<or> type' c = 13)
      \<and> filter (\<lambda>v. includeSelfInActions (settings_store (stores w))
                           \<or> userId v \<noteq> getCurrentUser (stores w))
                 (getVoiceStatesForChannel (stores w) (id' c)) \<noteq> []")
    case False
    with assms Some show ?thesis
      by (auto simp: VoiceChannelContext_def getVoiceStates_def Let_def split: if_splits)
  next
    case True
    define E where "E = VoiceTools c
        (filter (\<lambda>v. userId v \<noteq> getCurrentUser (stores w))
                 (getVoiceStatesForChannel (stores w) (id' c)) \<noteq> [])
        (filter (\<lambda>v. id' v \<noteq> id' c) (map fst (getChannels_VOCAL (stores w) (guild_id c))))
        (canWithPartialContext (stores w) MOVE_MEMBERS (id' c))
        (canWithPartialContext (stores w) MUTE_MEMBERS (id' c))
        (canWithPartialContext (stores w) DEAFEN_MEMBERS (id' c))"
    from assms Some True have "children' = splice children (- 1) E"
      by (auto simp: VoiceChannelContext_def getVoiceStates_def Let_def E_def split: if_splits)
    moreover have "menu_id E = Some ''voice-tools''"
      by (simp add: E_def)
    moreover have "group_item_ids E =
       [''voice-tools-mute-all'', ''voice-tools-unmute-all'']
       @ (if filter (\<lambda>v. userId v \<noteq> getCurrentUser (stores w))
                 (getVoiceStatesForChannel (stores w) (id' c)) \<noteq> []
          then [''voice-tools-soundboard-sound-mute-all'',
                ''voice-tools-soundboard-sound-unmute-all''] else [])
       @ (if canWithPartialContext (stores w) MUTE_MEMBERS (id' c)
          then [''voice-tools-server-mute-all'', ''voice-tools-server-unmute-all''] else [])
       @ (if canWithPartialContext (stores w) DEAFEN_MEMBERS (id' c)
          then [''voice-tools-server-deafen-all'', ''voice-tools-server-undeafen-all''] else [])
       @ (if canWithPartialContext (stores w) MOVE_MEMBERS (id' c)
          then [''voice-tools-disconnect-all'', ''voice-tools-move-all''] else [])"
      by (simp only: E_def group_item_ids_VoiceTools)
    ultimately show ?thesis
      using Some True by (intro disjI2 exI [of _ c] exI [of _ E]) simp
  qed
qed

section \<open>The examples, evaluated\<close>

lemmas example_defs = defaults_def lounge_def stage_def members_ABC_def abc_stores_def abc_world_def
  with_settings_def accepting_def refusing_def emptying_def resolving_def rejecting_def

lemmas run_defs = runSequential_run_from js_rem_def setTimeout_await_def
  sendPatch_def getVoiceStates_def RestAPI_patch_def Let_def




lemma sendPatch_refused:
  "sendPatch refusing lounge [(''mute'', JBool True)] False abc_world =
     (Inr (),
      abc_world\<lparr>calls :=
        [GetVoiceStatesForChannel ''100'',
         Patch \<lparr>url = ''/guilds/7/members/B'', body = [(''mute'', JBool True)]\<rparr>,
         ConsoleError ''VoiceChatUtilities failed to run'' (Failure ''403'')]\<rparr>,
      [Called 0, Rejected 0 (Failure ''403'')])"
  by (simp add: run_defs example_defs)

lemma sendPatch_emptying:
  "sendPatch emptying lounge [(''mute'', JBool True)] False abc_world =
     (Inr (),
      \<lparr>stores = abc_stores\<lparr>getVoiceStatesForChannel := (\<lambda>cid. [])\<rparr>,
       calls = [GetVoiceStatesForChannel ''100'',
                Patch \<lparr>url = ''/guilds/7/members/B'', body = [(''mute'', JBool True)]\<rparr>,
                Patch \<lparr>url = ''/guilds/7/members/C'', body = [(''mute'', JBool True)]\<rparr>]\<rparr>,
      [Called 0, Resolved 0 ''ok'', Paused 0 2000, Called 1, Resolved 1 ''ok''])"
  by (simp add: run_defs example_defs)




lemma disconnect_abc:
  "disconnect accepting lounge abc_world =
     (Inr (),
      \<lparr>stores = abc_stores\<lparr>getVoiceChannelId := None\<rparr>,
       calls = [Disconnect, GetVoiceStatesForChannel ''100'',
                Patch \<lparr>url = ''/guilds/7/members/B'', body = [(''channel_id'', JNull)]\<rparr>,
                Patch \<lparr>url = ''/guilds/7/members/C'', body = [(''channel_id'', JNull)]\<rparr>]\<rparr>,
      [Called 0, Resolved 0 ''ok'', Paused 0 2000, Called 1, Resolved 1 ''ok''])"
  by (simp add: run_defs example_defs disconnect_def ChannelActions_disconnect_def)

lemma disconnect_elsewhere:
  "disconnect accepting lounge
      (with_settings (defaults\<lparr>includeSelfInActions := True\<rparr>) elsewhere_world) =
     (Inr (),
      (with_settings (defaults\<lparr>includeSelfInActions := True\<rparr>) elsewhere_world)
        \<lparr>calls := [GetVoiceStatesForChannel ''100'',
                Patch \<lparr>url = ''/guilds/7/members/B'', body = [(''channel_id'', JNull)]\<rparr>,
                Patch \<lparr>url = ''/guilds/7/members/C'', body = [(''channel_id'', JNull)]\<rparr>]\<rparr>,
      [Called 0, Resolved 0 ''ok'', Paused 0 2000, Called 1, Resolved 1 ''ok''])"
  by (simp add: run_defs example_defs disconnect_def elsewhere_world_def)

lemma disconnect_elsewhere_plain:
  "disconnect accepting lounge elsewhere_world =
     (Inr (),
      elsewhere_world
        \<lparr>calls := [GetVoiceStatesForChannel ''100'',
                Patch \<lparr>url = ''/guilds/7/members/B'', body = [(''channel_id'', JNull)]\<rparr>,
                Patch \<lparr>url = ''/guilds/7/members/C'', body = [(''channel_id'', JNull)]\<rparr>]\<rparr>,
      [Called 0, Resolved 0 ''ok'', Paused 0 2000, Called 1, Resolved 1 ''ok''])"
  by (simp add: run_defs example_defs disconnect_def elsewhere_world_def)

lemma muteSoundboards_self_included:
  "muteSoundboards lounge (with_settings (defaults\<lparr>includeSelfInActions := True\<rparr>) abc_world) =
     \<lparr>stores = abc_stores\<lparr>isLocalSoundboardMuted := (\<lambda>u. u = ''B'' \<or> u = ''C''),
                            settings_store := defaults\<lparr>includeSelfInActions := True\<rparr>\<rparr>,
      calls = [GetVoiceStatesForChannel ''100'', ToggleLocalSoundboardMute ''B'',
               ToggleLocalSoundboardMute ''C'']\<rparr>"
  by (simp add: muteSoundboards_def getVoiceStates_def example_defs toggleLocalSoundboardMute_def
      fun_eq_iff)

lemma mute_abc:
  "mute lounge (with_settings (defaults\<lparr>includeSelfInActions := True\<rparr>) abc_world) =
     \<lparr>stores = abc_stores\<lparr>isLocalMute := (\<lambda>u. u = ''B'' \<or> u = ''C''), isSelfMute := True,
                            settings_store := defaults\<lparr>includeSelfInActions := True\<rparr>\<rparr>,
      calls = [GetVoiceStatesForChannel ''100'', ToggleLocalMute ''C'', ToggleSelfMute]\<rparr>"
  by (simp add: mute_def getVoiceStates_def example_defs toggleLocalMute_def toggleSelfMute_def
      fun_eq_iff)

section \<open>The claims\<close>











text \<open>
  C5. The voice channel with the members A, B and C, seen by A on a client that is not
  connected to it (A is in the channel from another device), so that
  \<open>SelectedChannelStore.getVoiceChannelId()\<close> is not the id of the channel:
  \<open>disconnect\<close> makes no direct call, and its batch, built without \<open>includeSelf\<close>,
  has requests for B and C only, with \<open>includeSelfInActions\<close> off and on. Nothing that
  is issued affects A, who stays in the channel. The claim has a request affecting the
  invoking user in all cases, and so has the description of the setting, ``Move/disconnect
  all will always include yourself''. On the client that is connected to the channel the
  direct call is made.
\<close>

theorem disconnect_misses_self:
  "getCurrentUser (stores elsewhere_world) = ''A''
   \<and> map userId (getVoiceStatesForChannel (stores elsewhere_world) (id' lounge)) = [''A'', ''B'', ''C'']
   \<and> getVoiceChannelId (stores elsewhere_world) = None
   \<and> new_calls elsewhere_world (fst (snd (disconnect accepting lounge elsewhere_world))) =
       [GetVoiceStatesForChannel ''100'',
        Patch \<lparr>url = ''/guilds/7/members/B'', body = [(''channel_id'', JNull)]\<rparr>,
        Patch \<lparr>url = ''/guilds/7/members/C'', body = [(''channel_id'', JNull)]\<rparr>]
   \<and> filter (affects lounge ''A'')
        (new_calls elsewhere_world (fst (snd (disconnect accepting lounge elsewhere_world)))) = []
   \<and> new_calls (with_settings (defaults\<lparr>includeSelfInActions := True\<rparr>) elsewhere_world)
        (fst (snd (disconnect accepting lounge
           (with_settings (defaults\<lparr>includeSelfInActions := True\<rparr>) elsewhere_world)))) =
       [GetVoiceStatesForChannel ''100'',
        Patch \<lparr>url = ''/guilds/7/members/B'', body = [(''channel_id'', JNull)]\<rparr>,
        Patch \<lparr>url = ''/guilds/7/members/C'', body = [(''channel_id'', JNull)]\<rparr>]
   \<and> filter (affects lounge ''A'')
        (new_calls abc_world (fst (snd (disconnect accepting lounge abc_world)))) = [Disconnect]"
  by (simp add: disconnect_elsewhere disconnect_elsewhere_plain disconnect_abc new_calls_def)
     (simp add: example_defs elsewhere_world_def)

text \<open>
  C6. A list of one producer with the default \<open>waitAfter = 5\<close>: the run pauses once,
  after index 0, because \<open>0 % 5 === 0\<close>. The claim has no pause here, and so has the
  description of the setting, ``Amount of API actions to perform before waiting''.
\<close>

theorem single_producer_pauses:
  "pause_indices (snd (snd (runSequential accepting [resolving ''ok''] abc_world))) = [0]
   \<and> waitAfter (settings_store (stores abc_world)) = 5"
  by (simp add: runSequential_run_from example_defs js_rem_def setTimeout_await_def)

text \<open>
  C7. Whatever the settings are, \<open>muteSoundboards\<close> and \<open>unmuteSoundboards\<close> never
  toggle the soundboard mute of the current user: after reading the voice states they
  only toggle members of the roster, and the roster is the present members without the
  current user.
\<close>

theorem soundboards_never_self:
  "ToggleLocalSoundboardMute (getCurrentUser (stores w)) \<notin> set (new_calls w (muteSoundboards c w))
   \<and> ToggleLocalSoundboardMute (getCurrentUser (stores w)) \<notin> set (new_calls w (unmuteSoundboards c w))
   \<and> new_calls w (muteSoundboards c w) =
        GetVoiceStatesForChannel (id' c)
        # map ToggleLocalSoundboardMute
            (toggled (isLocalSoundboardMuted (stores w)) True (roster c (stores w)))
   \<and> new_calls w (unmuteSoundboards c w) =
        GetVoiceStatesForChannel (id' c)
        # map ToggleLocalSoundboardMute
            (toggled (isLocalSoundboardMuted (stores w)) False (roster c (stores w)))
   \<and> set (toggled (isLocalSoundboardMuted (stores w)) True (roster c (stores w))) \<subseteq> set (roster c (stores w))
   \<and> set (toggled (isLocalSoundboardMuted (stores w)) False (roster c (stores w))) \<subseteq> set (roster c (stores w))
   \<and> roster c (stores w) =
        map userId (filter (\<lambda>v. userId v \<noteq> getCurrentUser (stores w))
                      (getVoiceStatesForChannel (stores w) (id' c)))
   \<and> getCurrentUser (stores w) \<notin> set (roster c (stores w))"
proof -
  have "getCurrentUser (stores w) \<notin> set (toggled (isLocalSoundboardMuted (stores w)) t (roster c (stores w)))"
    for t
    using roster_not_self [of "stores w" c] by (simp add: set_toggled)
  then show ?thesis
    by (auto simp: new_calls_def muteSoundboards_effect unmuteSoundboards_effect roster_not_self
        set_toggled roster_def)
qed

text \<open>The members A, B and C seen by A with \<open>includeSelfInActions\<close> set: toggles for
  B and C.\<close>

theorem soundboards_never_self_witness:
  "includeSelfInActions (settings_store (stores
      (with_settings (defaults\<lparr>includeSelfInActions := True\<rparr>) abc_world)))
   \<and> getCurrentUser (stores (with_settings (defaults\<lparr>includeSelfInActions := True\<rparr>) abc_world)) = ''A''
   \<and> ToggleLocalSoundboardMute ''A'' \<notin> set
        [GetVoiceStatesForChannel ''100'', ToggleLocalSoundboardMute ''B'',
         ToggleLocalSoundboardMute ''C'']"
  using soundboards_never_self [of "with_settings (defaults\<lparr>includeSelfInActions := True\<rparr>) abc_world" lounge]
  by (simp add: example_defs)

text \<open>
  C8. At the voice channel with the members A, B and C, for a user who holds none of the
  three permissions, the callback of \<open>src/index.tsx\<close> inserts the submenu with all six
  server items, because it takes the three permissions to be \<open>true\<close>; the callback
  \<open>VoiceChannelContext\<close> shows none of them there, as \<open>VoiceChannelContext_permissions\<close>
  has it.
\<close>

theorem index_menu_ignores_permissions:
  "canWithPartialContext (stores no_permission_world) MUTE_MEMBERS (id' lounge) = False
   \<and> canWithPartialContext (stores no_permission_world) DEAFEN_MEMBERS (id' lounge) = False
   \<and> canWithPartialContext (stores no_permission_world) MOVE_MEMBERS (id' lounge) = False
   \<and> map group_item_ids (fst (VoiceChannelContext_index [] (Some lounge) no_permission_world)) =
       [[''voice-tools-server-mute-all'', ''voice-tools-server-unmute-all'',
         ''voice-tools-server-deafen-all'', ''voice-tools-server-undeafen-all'',
         ''voice-tools-disconnect-all'', ''voice-tools-move-all'']]
   \<and> map group_item_ids (fst (VoiceChannelContext [] (Some lounge) no_permission_world)) =
       [[''voice-tools-mute-all'', ''voice-tools-unmute-all'',
         ''voice-tools-soundboard-sound-mute-all'', ''voice-tools-soundboard-sound-unmute-all'']]"
  by (simp add: VoiceChannelContext_index_def VoiceChannelContext_def VoiceTools_index_def
      VoiceTools_def getVoiceStates_def splice_def group_item_ids_def no_permission_world_def
      example_defs Let_def)

text \<open>
  C9. Each of the four local actions, applied a second time right after the first, leaves
  the local state (the local mutes, the self mute and the soundboard mutes) as the first
  application left it, and toggles nothing the second time. One application toggles the
  flag of a member exactly when the member is in the roster and the flag differs from the
  target, and \<open>mute\<close> and \<open>unmute\<close> toggle the self mute exactly when
  \<open>includeSelfInActions\<close> is set and the self mute differs from the target.
\<close>

theorem local_actions_idempotent:
  "local_state (mute c (mute c w)) = local_state (mute c w)
   \<and> local_state (unmute c (unmute c w)) = local_state (unmute c w)
   \<and> local_state (muteSoundboards c (muteSoundboards c w)) = local_state (muteSoundboards c w)
   \<and> local_state (unmuteSoundboards c (unmuteSoundboards c w)) = local_state (unmuteSoundboards c w)
   \<and> new_calls (mute c w) (mute c (mute c w)) = [GetVoiceStatesForChannel (id' c)]
   \<and> new_calls (unmute c w) (unmute c (unmute c w)) = [GetVoiceStatesForChannel (id' c)]
   \<and> new_calls (muteSoundboards c w) (muteSoundboards c (muteSoundboards c w)) =
        [GetVoiceStatesForChannel (id' c)]
   \<and> new_calls (unmuteSoundboards c w) (unmuteSoundboards c (unmuteSoundboards c w)) =
        [GetVoiceStatesForChannel (id' c)]
   \<and> (ToggleLocalMute u \<in> set (new_calls w (mute c w))) =
        (u \<in> set (roster c (stores w)) \<and> \<not> isLocalMute (stores w) u)
   \<and> (ToggleLocalMute u \<in> set (new_calls w (unmute c w))) =
        (u \<in> set (roster c (stores w)) \<and> isLocalMute (stores w) u)
   \<and> (ToggleSelfMute \<in> set (new_calls w (mute c w))) =
        (includeSelfInActions (settings_store (stores w)) \<and> \<not> isSelfMute (stores w))
   \<and> (ToggleSelfMute \<in> set (new_calls w (unmute c w))) =
        (includeSelfInActions (settings_store (stores w)) \<and> isSelfMute (stores w))
   \<and> (ToggleLocalSoundboardMute u \<in> set (new_calls w (muteSoundboards c w))) =
        (u \<in> set (roster c (stores w)) \<and> \<not> isLocalSoundboardMuted (stores w) u)
   \<and> (ToggleLocalSoundboardMute u \<in> set (new_calls w (unmuteSoundboards c w))) =
        (u \<in> set (roster c (stores w)) \<and> isLocalSoundboardMuted (stores w) u)"
  by (simp only: mute_twice unmute_twice muteSoundboards_twice unmuteSoundboards_twice
      local_toggles simp_thms)

text \<open>The members A, B and C seen by A with \<open>includeSelfInActions\<close> set and B
  already muted: the first \<open>mute\<close> toggles C and the self mute, the second nothing.\<close>

theorem local_actions_idempotent_witness:
  "new_calls (with_settings (defaults\<lparr>includeSelfInActions := True\<rparr>) abc_world)
      (mute lounge (with_settings (defaults\<lparr>includeSelfInActions := True\<rparr>) abc_world)) =
     [GetVoiceStatesForChannel ''100'', ToggleLocalMute ''C'', ToggleSelfMute]
   \<and> new_calls (mute lounge (with_settings (defaults\<lparr>includeSelfInActions := True\<rparr>) abc_world))
        (mute lounge (mute lounge (with_settings (defaults\<lparr>includeSelfInActions := True\<rparr>) abc_world))) =
     [GetVoiceStatesForChannel ''100'']"
  using local_actions_idempotent [of lounge
      "with_settings (defaults\<lparr>includeSelfInActions := True\<rparr>) abc_world" "''C''"]
  by (simp add: mute_abc new_calls_def) (simp add: example_defs)

text \<open>
  C10. \<open>sendPatch\<close> reads the voice states of the channel once, as its first call, and
  hands \<open>runSequential\<close> one producer for each request that the stores determine at that
  moment. At a host that accepts every request, whatever it does to the stores while the
  batch runs, the requests issued are exactly these: one for each voice state read, in
  order, the current user's left out unless \<open>includeSelf\<close>, each with the body \<open>b\<close>
  and the URL \<open>/guilds/{guild_id}/members/{userId}\<close>. When the request at index \<open>k\<close>
  is the first that the host rejects, the first \<open>k + 1\<close> of them are issued, and then the
  error is logged. In every case the requests issued are the first requests of that list.
\<close>

theorem sendPatch_one_read:
  assumes "sendPatch H c b includeSelf w = (out, w', st)"
  shows "((\<forall>req s. \<not> isl (fst (respond H req s))) \<longrightarrow>
            new_calls w w' =
              GetVoiceStatesForChannel (id' c)
              # map (\<lambda>v. Patch \<lparr>url = ''/guilds/'' @ guild_id c @ ''/members/'' @ userId v, body = b\<rparr>)
                  (filter (\<lambda>v. includeSelf \<or> userId v \<noteq> getCurrentUser (stores w))
                     (getVoiceStatesForChannel (stores w) (id' c))))
       \<and> (\<forall>k e. k < length (requests_for c b includeSelf (stores w))
              \<and> (\<forall>j<k. \<forall>s. \<not> isl (fst (respond H (requests_for c b includeSelf (stores w) ! j) s)))
              \<and> (\<forall>s. fst (respond H (requests_for c b includeSelf (stores w) ! k) s) = Inl e) \<longrightarrow>
            new_calls w w' =
              GetVoiceStatesForChannel (id' c)
              # map Patch (take (Suc k) (requests_for c b includeSelf (stores w)))
              @ [ConsoleError ''VoiceChatUtilities failed to run'' e])
       \<and> (out, w', st) =
           (case runSequential H (map (RestAPI_patch H) (requests_for c b includeSelf (stores w)))
                   (w\<lparr>calls := calls w @ [GetVoiceStatesForChannel (id' c)]\<rparr>) of
              (Inl e, w2, st2) \<Rightarrow>
                (Inr (), w2\<lparr>calls := calls w2 @ [ConsoleError ''VoiceChatUtilities failed to run'' e]\<rparr>, st2)
            | (Inr results, w2, st2) \<Rightarrow> (Inr (), w2, st2))
       \<and> new_calls w w' = GetVoiceStatesForChannel (id' c)
            # map Patch (take (length (called st)) (requests_for c b includeSelf (stores w)))
            @ failure_log (rejected st)
       \<and> voice_state_reads (new_calls w w') = [id' c]
       \<and> length (called st) \<le> length (requests_for c b includeSelf (stores w))
       \<and> (rejected st = [] \<longrightarrow> patches (new_calls w w') = requests_for c b includeSelf (stores w))
       \<and> (\<forall>r\<in>set (patches (new_calls w w')).
             body r = b
             \<and> (\<exists>v\<in>set (getVoiceStatesForChannel (stores w) (id' c)).
                   url r = ''/guilds/'' @ guild_id c @ ''/members/'' @ userId v))"
proof -
  let ?reqs = "requests_for c b includeSelf (stores w)"
  note n = sendPatch_new_calls [OF assms]
  have each: "\<forall>r\<in>set (patches (new_calls w w')).
             body r = b
             \<and> (\<exists>v\<in>set (getVoiceStatesForChannel (stores w) (id' c)).
                   url r = ''/guilds/'' @ guild_id c @ ''/members/'' @ userId v)"
  proof
    fix r assume "r \<in> set (patches (new_calls w w'))"
    then have "r \<in> set ?reqs"
      by (auto simp: n dest: in_set_takeD)
    then show "body r = b
             \<and> (\<exists>v\<in>set (getVoiceStatesForChannel (stores w) (id' c)).
                   url r = ''/guilds/'' @ guild_id c @ ''/members/'' @ userId v)"
      by (auto simp: requests_for_def)
  qed
  have whole: "rejected st = [] \<longrightarrow> patches (new_calls w w') = ?reqs"
    using sendPatch_calls(5) [OF assms] by (simp add: n)
  have reads: "voice_state_reads (new_calls w w') = [id' c]"
    by (simp add: n)
  have acc: "(\<forall>req s. \<not> isl (fst (respond H req s))) \<longrightarrow>
            new_calls w w' =
              GetVoiceStatesForChannel (id' c)
              # map (\<lambda>v. Patch \<lparr>url = ''/guilds/'' @ guild_id c @ ''/members/'' @ userId v, body = b\<rparr>)
                  (filter (\<lambda>v. includeSelf \<or> userId v \<noteq> getCurrentUser (stores w))
                     (getVoiceStatesForChannel (stores w) (id' c)))"
  proof
    assume "\<forall>req s. \<not> isl (fst (respond H req s))"
    from sendPatch_all_accepted(1) [OF this assms]
    show "new_calls w w' =
              GetVoiceStatesForChannel (id' c)
              # map (\<lambda>v. Patch \<lparr>url = ''/guilds/'' @ guild_id c @ ''/members/'' @ userId v, body = b\<rparr>)
                  (filter (\<lambda>v. includeSelf \<or> userId v \<noteq> getCurrentUser (stores w))
                     (getVoiceStatesForChannel (stores w) (id' c)))"
      by (simp add: requests_for_def comp_def)
  qed
  have rej: "\<forall>k e. k < length ?reqs
              \<and> (\<forall>j<k. \<forall>s. \<not> isl (fst (respond H (?reqs ! j) s)))
              \<and> (\<forall>s. fst (respond H (?reqs ! k) s) = Inl e) \<longrightarrow>
            new_calls w w' =
              GetVoiceStatesForChannel (id' c)
              # map Patch (take (Suc k) ?reqs)
              @ [ConsoleError ''VoiceChatUtilities failed to run'' e]"
  proof (intro allI impI, elim conjE)
    fix k e
    assume 1: "k < length ?reqs"
      and 2: "\<forall>j<k. \<forall>s. \<not> isl (fst (respond H (?reqs ! j) s))"
      and 3: "\<forall>s. fst (respond H (?reqs ! k) s) = Inl e"
    show "new_calls w w' =
              GetVoiceStatesForChannel (id' c)
              # map Patch (take (Suc k) ?reqs)
              @ [ConsoleError ''VoiceChatUtilities failed to run'' e]"
      by (rule sendPatch_first_rejected(1) [OF 1 2 3 assms])
  qed
  have hand: "(out, w', st) =
           (case runSequential H (map (RestAPI_patch H) ?reqs)
                   (w\<lparr>calls := calls w @ [GetVoiceStatesForChannel (id' c)]\<rparr>) of
              (Inl e, w2, st2) \<Rightarrow>
                (Inr (), w2\<lparr>calls := calls w2 @ [ConsoleError ''VoiceChatUtilities failed to run'' e]\<rparr>, st2)
            | (Inr results, w2, st2) \<Rightarrow> (Inr (), w2, st2))"
    using assms by (simp only: sendPatch_runSequential [symmetric])
  from acc rej hand n reads sendPatch_calls(4) [OF assms] whole each show ?thesis
    by (intro conjI)
qed

text \<open>
  A host at which everybody has left the channel when the first request is
  answered: the requests for B and C are issued all the same. A host that rejects every
  request: the read, the request for B and the logged error.
\<close>

theorem sendPatch_one_read_witness:
  "new_calls abc_world
      \<lparr>stores = abc_stores\<lparr>getVoiceStatesForChannel := (\<lambda>cid. [])\<rparr>,
       calls = [GetVoiceStatesForChannel ''100'',
                Patch \<lparr>url = ''/guilds/7/members/B'', body = [(''mute'', JBool True)]\<rparr>,
                Patch \<lparr>url = ''/guilds/7/members/C'', body = [(''mute'', JBool True)]\<rparr>]\<rparr>
   = [GetVoiceStatesForChannel ''100'',
      Patch \<lparr>url = ''/guilds/7/members/B'', body = [(''mute'', JBool True)]\<rparr>,
      Patch \<lparr>url = ''/guilds/7/members/C'', body = [(''mute'', JBool True)]\<rparr>]
   \<and> getVoiceStatesForChannel (stores abc_world) ''100'' = members_ABC
   \<and> getVoiceStatesForChannel
        (stores (fst (snd (sendPatch emptying lounge [(''mute'', JBool True)] False abc_world))))
        ''100'' = []
   \<and> patches (new_calls abc_world
        (fst (snd (sendPatch emptying lounge [(''mute'', JBool True)] False abc_world))))
     = requests_for lounge [(''mute'', JBool True)] False abc_stores
   \<and> new_calls abc_world
        (fst (snd (sendPatch refusing lounge [(''mute'', JBool True)] False abc_world))) =
       [GetVoiceStatesForChannel ''100'',
        Patch \<lparr>url = ''/guilds/7/members/B'', body = [(''mute'', JBool True)]\<rparr>,
        ConsoleError ''VoiceChatUtilities failed to run'' (Failure ''403'')]"
proof -
  let ?reqs = "requests_for lounge [(''mute'', JBool True)] False (stores abc_world)"
  have a: "\<forall>req s. \<not> isl (fst (respond emptying req s))"
    by (simp add: emptying_def)
  note t = sendPatch_one_read [OF sendPatch_emptying]
  have e: "rejected [Called 0, Resolved 0 ''ok'', Paused 0 2000, Called 1, Resolved 1 ''ok''] = []"
    by simp
  have r: "0 < length ?reqs
      \<and> (\<forall>j<0. \<forall>s. \<not> isl (fst (respond refusing (?reqs ! j) s)))
      \<and> (\<forall>s. fst (respond refusing (?reqs ! 0) s) = Inl (Failure ''403''))"
    by (simp add: requests_for_def example_defs)
  from t [THEN conjunct1, THEN mp, OF a]
    t [THEN conjunct2, THEN conjunct2, THEN conjunct2, THEN conjunct2, THEN conjunct2,
       THEN conjunct2, THEN conjunct1, THEN mp, OF e]
  have 1: "new_calls abc_world
      \<lparr>stores = abc_stores\<lparr>getVoiceStatesForChannel := (\<lambda>cid. [])\<rparr>,
       calls = [GetVoiceStatesForChannel ''100'',
                Patch \<lparr>url = ''/guilds/7/members/B'', body = [(''mute'', JBool True)]\<rparr>,
                Patch \<lparr>url = ''/guilds/7/members/C'', body = [(''mute'', JBool True)]\<rparr>]\<rparr>
   = [GetVoiceStatesForChannel ''100'',
      Patch \<lparr>url = ''/guilds/7/members/B'', body = [(''mute'', JBool True)]\<rparr>,
      Patch \<lparr>url = ''/guilds/7/members/C'', body = [(''mute'', JBool True)]\<rparr>]
   \<and> getVoiceStatesForChannel (stores abc_world) ''100'' = members_ABC
   \<and> getVoiceStatesForChannel
        (stores (fst (snd (sendPatch emptying lounge [(''mute'', JBool True)] False abc_world))))
        ''100'' = []
   \<and> patches (new_calls abc_world
        (fst (snd (sendPatch emptying lounge [(''mute'', JBool True)] False abc_world))))
     = requests_for lounge [(''mute'', JBool True)] False abc_stores"
    by (simp add: sendPatch_emptying) (simp add: example_defs)
  from sendPatch_one_read [OF sendPatch_refused, THEN conjunct2, THEN conjunct1,
      THEN spec [of _ 0], THEN spec [of _ "Failure ''403''"], THEN mp, OF r]
  have 2: "new_calls abc_world
        (fst (snd (sendPatch refusing lounge [(''mute'', JBool True)] False abc_world))) =
       [GetVoiceStatesForChannel ''100'',
        Patch \<lparr>url = ''/guilds/7/members/B'', body = [(''mute'', JBool True)]\<rparr>,
        ConsoleError ''VoiceChatUtilities failed to run'' (Failure ''403'')]"
    by (simp add: sendPatch_refused) (simp add: requests_for_def example_defs)
  from 1 2 show ?thesis by (intro conjI) (simp_all only:)
qed

end
